theory Spec2Isabelle
  imports Complex_Main "HOL-Library.Char_ord" "HOL-Library.List_Lexorder"
begin

section \<open>Numbers\<close>

text \<open>
  A JavaScript \<open>number\<close> that reaches the application arrives as JSON (the analyzer's
  answer, a stored record, a stored blob): it is modelled as the rational that the JSON
  text denotes. Arithmetic is that of IEEE doubles: its operands and results are
  doubles, an infinity or \<open>NaN\<close>. The sign of zero is not modelled. Clock readings
  (\<open>Date.now()\<close>) are integers. Strings are lists of 8-bit characters.
\<close>

type_synonym number = rat

datatype double = Finite rat | PosInfinity | NegInfinity | NaN

definition pow2 :: "int \<Rightarrow> rat" where
  "pow2 k = (if 0 \<le> k then 2 ^ nat k else 1 / 2 ^ nat (- k))"

text \<open>
  The binary exponent of a positive rational \<open>x\<close>, the \<open>e\<close> with \<open>2\<^sup>e \<le> x < 2\<^sup>e\<^sup>+\<^sup>1\<close>: the
  number of halvings that bring \<open>x\<close> below 2, or minus the number of doublings that bring
  it to 1.
\<close>

function halvings :: "rat \<Rightarrow> nat" where
  "halvings x = (if 2 \<le> x then Suc (halvings (x / 2)) else 0)"
  by pat_completeness auto
termination
proof (relation "measure (\<lambda>x. nat \<lfloor>x\<rfloor>)")
  show "wf (measure (\<lambda>x::rat. nat \<lfloor>x\<rfloor>))" by simp
next
  fix x :: rat
  assume "2 \<le> x"
  then have "x / 2 \<le> x - 1" by simp
  then have "\<lfloor>x / 2\<rfloor> \<le> \<lfloor>x - 1\<rfloor>" by (rule floor_mono)
  moreover have "\<lfloor>x - 1\<rfloor> = \<lfloor>x\<rfloor> - 1" by simp
  moreover have "2 \<le> \<lfloor>x\<rfloor>" using \<open>2 \<le> x\<close> by (simp add: le_floor_iff)
  ultimately show "(x / 2, x) \<in> measure (\<lambda>x. nat \<lfloor>x\<rfloor>)" by simp
qed

function doublings :: "rat \<Rightarrow> nat" where
  "doublings x = (if 0 < x \<and> x < 1 then Suc (doublings (x * 2)) else 0)"
  by pat_completeness auto
termination
proof (relation "measure (\<lambda>x. nat \<lceil>1 / x\<rceil>)")
  show "wf (measure (\<lambda>x::rat. nat \<lceil>1 / x\<rceil>))" by simp
next
  fix x :: rat
  assume x: "0 < x \<and> x < 1"
  then have "1 < 1 / x" by simp
  then have c2: "2 \<le> \<lceil>1 / x\<rceil>" by (simp add: le_ceiling_iff)
  have "1 / (x * 2) = (1 / x) / 2" by simp
  also have "\<dots> \<le> rat_of_int \<lceil>1 / x\<rceil> / 2" by (simp add: divide_right_mono)
  also have "\<dots> \<le> rat_of_int (\<lceil>1 / x\<rceil> - 1)"
  proof -
    have "rat_of_int 2 \<le> rat_of_int \<lceil>1 / x\<rceil>" using c2 by (simp only: of_int_le_iff)
    then show ?thesis by simp
  qed
  finally have "\<lceil>1 / (x * 2)\<rceil> \<le> \<lceil>1 / x\<rceil> - 1" by (simp only: ceiling_le_iff)
  then have "nat \<lceil>1 / (x * 2)\<rceil> < nat \<lceil>1 / x\<rceil>" using c2 by linarith
  then show "(x * 2, x) \<in> measure (\<lambda>x. nat \<lceil>1 / x\<rceil>)"
    by (simp only: in_measure)
qed

declare halvings.simps [simp del]

declare doublings.simps [simp del]

definition exponent :: "rat \<Rightarrow> int" where
  "exponent x = (if 1 \<le> x then int (halvings x) else - int (doublings x))"

text \<open>The nearest integer, a tie going to the even one.\<close>

definition round_half_even :: "rat \<Rightarrow> int" where
  "round_half_even y =
     (let f = \<lfloor>y\<rfloor>; d = y - of_int f
      in if d < 1 / 2 then f else if 1 / 2 < d then f + 1 else if even f then f else f + 1)"

text \<open>
  The double nearest to a rational, a tie going to the even significand: 53 significant
  bits, the last one worth no less than \<open>2\<^sup>-\<^sup>1\<^sup>0\<^sup>7\<^sup>4\<close>, and an infinity from \<open>2\<^sup>1\<^sup>0\<^sup>2\<^sup>4\<close> on.
\<close>

definition round_double :: "rat \<Rightarrow> double" where
  "round_double x =
     (if x = 0 then Finite 0
      else
        (let q = max (exponent \<bar>x\<bar> - 52) (- 1074);
             y = of_int (round_half_even (x / pow2 q)) * pow2 q
         in if pow2 1024 \<le> y then PosInfinity
            else if y \<le> - pow2 1024 then NegInfinity
            else Finite y))"

text \<open>The operator \<open>+\<close> on two numbers.\<close>

fun add_double :: "double \<Rightarrow> double \<Rightarrow> double" where
  "add_double (Finite a) (Finite b) = round_double (a + b)"
| "add_double NaN y = NaN"
| "add_double x NaN = NaN"
| "add_double PosInfinity NegInfinity = NaN"
| "add_double NegInfinity PosInfinity = NaN"
| "add_double PosInfinity y = PosInfinity"
| "add_double x PosInfinity = PosInfinity"
| "add_double NegInfinity y = NegInfinity"
| "add_double x NegInfinity = NegInfinity"

text \<open>The operation \<open>/ 5\<close>.\<close>

fun divide_by_5 :: "double \<Rightarrow> double" where
  "divide_by_5 (Finite a) = round_double (a / 5)"
| "divide_by_5 x = x"

text \<open>
  \<open>Math.round\<close> gives the nearest integer, a tie going to the larger one: the floor of
  the argument plus one half, computed exactly; an infinity and \<open>NaN\<close> are returned as
  they are.
\<close>

fun Math_round :: "double \<Rightarrow> double" where
  "Math_round (Finite x) = Finite (of_int \<lfloor>x + 1 / 2\<rfloor>)"
| "Math_round x = x"

text \<open>
  A score read from an object, as an operand of \<open>+\<close>: \<open>undefined\<close> counts as \<open>NaN\<close>, and a
  number is the double that the JSON text it came in denotes, the nearest one to what
  the text says.
\<close>

definition to_double :: "number option \<Rightarrow> double" where
  "to_double x = (case x of None \<Rightarrow> NaN | Some v \<Rightarrow> round_double v)"

section \<open>Data model of \<open>src/App.tsx\<close>\<close>

datatype failure =
  InvalidUrl | FetchFailure | CaptureFailure | GenerationFailure | StoreFailure | TypeError
  | RangeError

text \<open>
  The interface \<open>AnalysisResult\<close> (lines 31 to 83), one record per nested object. The
  objects come from outside, as the analyzer's answer or out of a stored blob, and
  nothing checks their shape: a key the application reads (\<open>id\<close>, \<open>url\<close>, \<open>timestamp\<close>, a
  section, the \<open>score\<close> of a section) is absent or holds a value of the type the interface
  gives it.
\<close>

record perf_metrics =
  loadTime :: number
  firstContentfulPaint :: number
  largestContentfulPaint :: number
  cumulativeLayoutShift :: number

record performance_section =
  perf_score :: "number option"
  perf_metrics :: perf_metrics
  perf_recommendations :: "string list"

datatype issue_type = error | warning | info

datatype issue_impact = high | medium | low

record seo_issue =
  issue_type :: issue_type
  issue_message :: string
  issue_impact :: issue_impact

record seo_section =
  seo_score :: "number option"
  seo_issues :: "seo_issue list"
  seo_recommendations :: "string list"

datatype violation_severity = critical | serious | moderate | minor

record violation =
  violation_severity :: violation_severity
  violation_description :: string
  violation_element :: string

record accessibility_section =
  acc_score :: "number option"
  acc_violations :: "violation list"
  acc_recommendations :: "string list"

record design_analysis =
  colorContrast :: number
  typography :: number
  layout :: number
  responsiveness :: number

record design_section =
  design_score :: "number option"
  design_analysis :: design_analysis
  design_recommendations :: "string list"

record ux_metrics =
  navigationClarity :: number
  contentReadability :: number
  mobileUsability :: number
  interactionDesign :: number

record ux_section =
  ux_score :: "number option"
  ux_metrics :: ux_metrics
  ux_recommendations :: "string list"

text \<open>The five sections of an object, each present or not.\<close>

record analysis =
  performance :: "performance_section option"
  seo :: "seo_section option"
  accessibility :: "accessibility_section option"
  design :: "design_section option"
  ux :: "ux_section option"

text \<open>
  \<open>AnalysisResult\<close> as the application builds it: \<open>id\<close>, \<open>url\<close> and \<open>timestamp\<close> are always
  there, the sections are those of the object that was spread into it.
\<close>

record AnalysisResult = analysis +
  rid :: string
  rurl :: string
  timestamp :: number

text \<open>
  An object received from outside: what the structured generation answers (the \<open>schema\<close>
  of lines 220 to 308 is sent with the request, the answer is not checked against it)
  and what \<open>JSON.parse\<close> returns for a blob. A parsed value that is no object (\<open>null\<close>, a
  number) has no keys to spread and is the object with every key absent.
\<close>

record parsed = analysis +
  p_id :: "string option"
  p_url :: "string option"
  p_timestamp :: "number option"

text \<open>
  \<open>{ id: i, url: u, timestamp: t, ...obj }\<close> (lines 109 to 114 and 315 to 320): the keys
  of the object are spread after \<open>id\<close>, \<open>url\<close> and \<open>timestamp\<close>, so where it has one of these
  it wins.
\<close>

definition spread :: "string \<Rightarrow> string \<Rightarrow> number \<Rightarrow> parsed \<Rightarrow> AnalysisResult" where
  "spread i u t obj =
     \<lparr>performance = performance obj, seo = seo obj, accessibility = accessibility obj,
      design = design obj, ux = ux obj,
      rid = (case p_id obj of Some v \<Rightarrow> v | None \<Rightarrow> i),
      rurl = (case p_url obj of Some v \<Rightarrow> v | None \<Rightarrow> u),
      timestamp = (case p_timestamp obj of Some v \<Rightarrow> v | None \<Rightarrow> t)\<rparr>"

section \<open>Overall score\<close>

text \<open>
  The five reads \<open>r.performance.score\<close> to \<open>r.ux.score\<close>, in this order: reading the
  \<open>score\<close> of an absent section throws a \<open>TypeError\<close>, an absent \<open>score\<close> reads as
  \<open>undefined\<close>.
\<close>

definition scores_of ::
  "'a analysis_scheme \<Rightarrow>
     failure + number option \<times> number option \<times> number option \<times> number option \<times> number option"
  where
  "scores_of r =
     (case performance r of None \<Rightarrow> Inl TypeError | Some p \<Rightarrow>
     (case seo r of None \<Rightarrow> Inl TypeError | Some q \<Rightarrow>
     (case accessibility r of None \<Rightarrow> Inl TypeError | Some a \<Rightarrow>
     (case design r of None \<Rightarrow> Inl TypeError | Some d \<Rightarrow>
     (case ux r of None \<Rightarrow> Inl TypeError | Some u \<Rightarrow>
        Inr (perf_score p, seo_score q, acc_score a, design_score d, ux_score u))))))"

text \<open>The sum of the five scores, added from left to right as lines 385 and 876 write it.\<close>

definition score_sum ::
  "number option \<times> number option \<times> number option \<times> number option \<times> number option \<Rightarrow> double"
  where
  "score_sum v =
     (case v of (p, q, a, d, u) \<Rightarrow>
        add_double (add_double (add_double (add_double (to_double p) (to_double q))
          (to_double a)) (to_double d)) (to_double u))"

text \<open>The \<open>overall\<close> field of \<open>exportReport\<close> (line 385) and the star of a history item
  (line 876): the same expression.\<close>

definition overall :: "'a analysis_scheme \<Rightarrow> failure + double" where
  "overall r =
     (case scores_of r of
        Inl err \<Rightarrow> Inl err
      | Inr v \<Rightarrow> Inr (Math_round (divide_by_5 (score_sum v))))"

section \<open>Strings, URL validation and identifiers\<close>

text \<open>
  \<open>String.prototype.trim\<close> removes white space and line terminators from both ends; among
  the 8-bit characters these are tab, line feed, vertical tab, form feed, carriage return,
  space and the no-break space.
\<close>

definition isWhiteSpace :: "char \<Rightarrow> bool" where
  "isWhiteSpace c = (c \<in> set [CHR 0x09, CHR 0x0A, CHR 0x0B, CHR 0x0C, CHR 0x0D, CHR 0x20, CHR 0xA0])"

definition trim :: "string \<Rightarrow> string" where
  "trim s = rev (dropWhile isWhiteSpace (rev (dropWhile isWhiteSpace s)))"

definition startsWith :: "string \<Rightarrow> string \<Rightarrow> bool" where
  "startsWith s p = (take (length p) s = p)"

text \<open>Lines 159 to 163: the string handed to \<open>new URL\<close>, built from the input as typed.\<close>

definition with_scheme :: "string \<Rightarrow> string" where
  "with_scheme url =
     (if \<not> startsWith url ''http://'' \<and> \<not> startsWith url ''https://''
      then ''https://'' @ url else url)"

text \<open>
  The decimal numeral of an integer, as a template literal renders \<open>Date.now()\<close>
  (line 316).
\<close>

definition digit :: "nat \<Rightarrow> char" where
  "digit d = ''0123456789'' ! d"

fun digits :: "nat \<Rightarrow> string" where
  "digits n = (if n < 10 then [digit n] else digits (n div 10) @ [digit (n mod 10)])"

declare digits.simps [simp del]

definition ToString :: "int \<Rightarrow> string" where
  "ToString i = (if i < 0 then CHR ''-'' # digits (nat (- i)) else digits (nat i))"

definition analysis_id :: "int \<Rightarrow> string" where
  "analysis_id now = ''analysis_'' @ ToString now"

section \<open>The services around the application\<close>

text \<open>What \<open>blink.data.scrape\<close> resolves to: the text and the optional metadata.\<close>

record page =
  markdown :: string
  meta_title :: "string option"
  meta_description :: "string option"

text \<open>
  The varying parts of the template of lines 195 to 216; the fixed text around them is
  not modelled.
\<close>

record AnalysisPrompt =
  prompt_url :: string
  prompt_title :: string
  prompt_description :: string
  prompt_content :: string

text \<open>\<open>x || d\<close> on an optional string: an absent and an empty string are both falsy.\<close>

definition or_string :: "string option \<Rightarrow> string \<Rightarrow> string" where
  "or_string x d = (case x of None \<Rightarrow> d | Some v \<Rightarrow> if v = [] then d else v)"

text \<open>\<open>x || 0\<close> on an optional number: an absent number and zero are both falsy.\<close>

definition or_number :: "number option \<Rightarrow> number \<Rightarrow> number" where
  "or_number x d = (case x of None \<Rightarrow> d | Some v \<Rightarrow> if v = 0 then d else v)"

definition analysisPrompt :: "string \<Rightarrow> page \<Rightarrow> AnalysisPrompt" where
  "analysisPrompt validUrl pg =
     \<lparr>prompt_url = validUrl,
      prompt_title = or_string (meta_title pg) ''No title'',
      prompt_description = or_string (meta_description pg) ''No description'',
      prompt_content = take 2000 (markdown pg)\<rparr>"

text \<open>
  A record of the store: the argument of \<open>create\<close> (lines 323 to 335) and what \<open>list\<close>
  gives back. A score column may be absent, which is why line 122 writes
  \<open>item.performanceScore || 0\<close>.
\<close>

record row =
  row_id :: string
  userId :: string
  row_url :: string
  row_timestamp :: number
  performanceScore :: "number option"
  seoScore :: "number option"
  accessibilityScore :: "number option"
  designScore :: "number option"
  uxScore :: "number option"
  analysisData :: string
  createdAt :: string

text \<open>
  Everything the application calls and does not define: the URL parser, the JSON codec
  (\<open>JSON.parse\<close> gives nothing where it throws), the three remote services, the clock
  (read at lines 316 and 318, and rendered by \<open>new Date().toISOString()\<close> at line 334),
  the rendering of a given time (nothing where \<open>toISOString\<close> throws, the time being out
  of range), and whether the store accepts a call.
\<close>

record env =
  URL_parses :: "string \<Rightarrow> bool"
  JSON_stringify :: "AnalysisResult \<Rightarrow> string"
  JSON_parse :: "string \<Rightarrow> parsed option"
  scrape :: "string \<Rightarrow> failure + page"
  screenshot :: "string \<Rightarrow> failure + string"
  generateObject :: "AnalysisPrompt \<Rightarrow> failure + parsed"
  now_id :: int
  now_timestamp :: int
  now_createdAt :: string
  toISOString :: "number \<Rightarrow> string option"
  create_rejected :: "row \<Rightarrow> bool"
  list_fails :: bool

text \<open>
  Modelled from the spec: \<open>create\<close> of the external record store
  \<open>blink.db.websiteAnalyses\<close>. Section 4.6: it persists the record beside those already
  stored, or fails and stores nothing.
\<close>

definition db_create :: "env \<Rightarrow> row list \<Rightarrow> row \<Rightarrow> failure + row list" where
  "db_create e rows r = (if create_rejected e r then Inl StoreFailure else Inr (rows @ [r]))"

text \<open>
  Modelled from the spec: \<open>list\<close> of the same store. Section 4.6: it returns the records
  of the filter (here the user's) ordered by creation time, descending, capped at the
  limit, or fails.
\<close>

definition db_list :: "env \<Rightarrow> row list \<Rightarrow> string \<Rightarrow> nat \<Rightarrow> failure + row list" where
  "db_list e rows uid limit =
     (if list_fails e then Inl StoreFailure
      else Inr (take limit (rev (sort_key createdAt (filter (\<lambda>r. userId r = uid) rows)))))"

section \<open>The application state and its operations\<close>

datatype toast = ToastError string | ToastSuccess string

record user =
  user_id :: string
  user_email :: string

text \<open>
  The \<open>useState\<close> cells of lines 86 to 93, and beside them what the application does to the
  world: the contents of the store, the toasts shown and the lines written by
  \<open>console.error\<close>.
\<close>

record state =
  user :: "user option"
  url :: string
  analyzing :: bool
  progress :: nat
  currentStep :: string
  result :: "AnalysisResult option"
  history :: "AnalysisResult list"
  db :: "row list"
  toasts :: "toast list"
  console :: "string list"

definition initial :: state where
  "initial = \<lparr>user = None, url = [], analyzing = False, progress = 0, currentStep = [],
     result = None, history = [], db = [], toasts = [], console = []\<rparr>"

definition show_toast :: "toast \<Rightarrow> state \<Rightarrow> state" where
  "show_toast t s = s\<lparr>toasts := toasts s @ [t]\<rparr>"

definition console_error :: "string \<Rightarrow> state \<Rightarrow> state" where
  "console_error m s = s\<lparr>console := console s @ [m]\<rparr>"

subsection \<open>Reading the history (lines 95 to 136)\<close>

text \<open>The \<open>catch\<close> branch of lines 115 to 128.\<close>

definition fallback :: "row \<Rightarrow> AnalysisResult" where
  "fallback item =
     \<lparr>performance = Some \<lparr>perf_score = Some (or_number (performanceScore item) 0),
        perf_metrics = \<lparr>loadTime = 0, firstContentfulPaint = 0, largestContentfulPaint = 0,
          cumulativeLayoutShift = 0\<rparr>,
        perf_recommendations = []\<rparr>,
      seo = Some \<lparr>seo_score = Some (or_number (seoScore item) 0), seo_issues = [],
        seo_recommendations = []\<rparr>,
      accessibility = Some \<lparr>acc_score = Some (or_number (accessibilityScore item) 0),
        acc_violations = [], acc_recommendations = []\<rparr>,
      design = Some \<lparr>design_score = Some (or_number (designScore item) 0),
        design_analysis = \<lparr>colorContrast = 0, typography = 0, layout = 0, responsiveness = 0\<rparr>,
        design_recommendations = []\<rparr>,
      ux = Some \<lparr>ux_score = Some (or_number (uxScore item) 0),
        ux_metrics = \<lparr>navigationClarity = 0, contentReadability = 0, mobileUsability = 0,
          interactionDesign = 0\<rparr>,
        ux_recommendations = []\<rparr>,
      rid = row_id item, rurl = row_url item, timestamp = row_timestamp item\<rparr>"

text \<open>
  The \<open>try\<close> branch of lines 108 to 114: whatever \<open>JSON.parse\<close> returns is spread over the
  \<open>id\<close>, \<open>url\<close> and \<open>timestamp\<close> of the record.
\<close>

definition spread_parsed :: "row \<Rightarrow> parsed \<Rightarrow> AnalysisResult" where
  "spread_parsed item analysisData' =
     spread (row_id item) (row_url item) (row_timestamp item) analysisData'"

definition parse_item :: "env \<Rightarrow> row \<Rightarrow> AnalysisResult" where
  "parse_item e item =
     (case JSON_parse e (analysisData item) of
        Some analysisData' \<Rightarrow> spread_parsed item analysisData'
      | None \<Rightarrow> fallback item)"

text \<open>One \<open>console.error\<close> line for each record whose blob does not parse (line 116).\<close>

definition parse_errors :: "env \<Rightarrow> row list \<Rightarrow> string list" where
  "parse_errors e analyses =
     map (\<lambda>item. ''Failed to parse analysis data:'')
       (filter (\<lambda>item. JSON_parse e (analysisData item) = None) analyses)"

definition loadHistory :: "env \<Rightarrow> state \<Rightarrow> state" where
  "loadHistory e s =
     (case user s of
        None \<Rightarrow> s
      | Some u \<Rightarrow>
          (case db_list e (db s) (user_id u) 10 of
             Inr analyses \<Rightarrow>
               s\<lparr>history := map (parse_item e) analyses,
                 console := console s @ parse_errors e analyses\<rparr>
           | Inl err \<Rightarrow>
               show_toast (ToastError ''Failed to load analysis history'')
                 (console_error ''Failed to load history:'' s)))"

subsection \<open>Running an analysis (lines 152 to 354)\<close>

text \<open>Lines 158 to 168: \<open>new URL\<close> throws on a string that is no absolute URL.\<close>

definition validUrl :: "env \<Rightarrow> string \<Rightarrow> failure + string" where
  "validUrl e url' =
     (if URL_parses e (with_scheme url') then Inr (with_scheme url') else Inl InvalidUrl)"

text \<open>
  Lines 315 to 320: the analyzer's answer is spread after the \<open>id\<close> made from the clock,
  the validated URL and the clock reading, and replaces them where it has these keys.
\<close>

definition analysisResult :: "env \<Rightarrow> string \<Rightarrow> parsed \<Rightarrow> AnalysisResult" where
  "analysisResult e validUrl' a =
     spread (analysis_id (now_id e)) validUrl' (of_int (now_timestamp e)) a"

text \<open>
  The argument of \<open>create\<close>, lines 323 to 335: reading the \<open>score\<close> of an absent section
  throws while it is built.
\<close>

definition create_args :: "env \<Rightarrow> user \<Rightarrow> AnalysisResult \<Rightarrow> failure + row" where
  "create_args e u r =
     (case scores_of r of
        Inl err \<Rightarrow> Inl err
      | Inr (p, q, a, d, x) \<Rightarrow>
          Inr \<lparr>row_id = rid r, userId = user_id u, row_url = rurl r, row_timestamp = timestamp r,
            performanceScore = p, seoScore = q, accessibilityScore = a, designScore = d,
            uxScore = x,
            analysisData = JSON_stringify e r,
            createdAt = now_createdAt e\<rparr>)"

text \<open>
  The \<open>try\<close> block, lines 174 to 344: \<open>Inl\<close> carries what was thrown and the state at
  that moment, \<open>Inr\<close> the state at the end of the block. Reading \<open>user.id\<close> of an absent
  user throws while the argument of \<open>create\<close> is built.
\<close>

definition try_block :: "env \<Rightarrow> string \<Rightarrow> state \<Rightarrow> failure \<times> state + state" where
  "try_block e validUrl' s0 =
     (let s1 = s0\<lparr>currentStep := ''Analyzing website content...'', progress := 20\<rparr> in
      case scrape e validUrl' of
        Inl err \<Rightarrow> Inl (err, s1)
      | Inr pg \<Rightarrow>
     (let s2 = s1\<lparr>currentStep := ''Capturing website screenshot...'', progress := 40\<rparr> in
      case screenshot e validUrl' of
        Inl err \<Rightarrow> Inl (err, s2)
      | Inr screenshotUrl \<Rightarrow>
     (let s3 = s2\<lparr>currentStep := ''Running AI analysis...'', progress := 60\<rparr> in
      case generateObject e (analysisPrompt validUrl' pg) of
        Inl err \<Rightarrow> Inl (err, s3)
      | Inr a \<Rightarrow>
     (let s4 = s3\<lparr>currentStep := ''Saving analysis results...'', progress := 80\<rparr>;
          r = analysisResult e validUrl' a in
      case user s4 of
        None \<Rightarrow> Inl (TypeError, s4)
      | Some u \<Rightarrow>
     (case create_args e u r of
        Inl err \<Rightarrow> Inl (err, s4)
      | Inr args \<Rightarrow>
     (case db_create e (db s4) args of
        Inl err \<Rightarrow> Inl (err, s4)
      | Inr rows \<Rightarrow>
          Inr (show_toast (ToastSuccess ''Website analysis completed!'')
                (loadHistory e
                  (s4\<lparr>db := rows, progress := 100, currentStep := ''Analysis complete!'',
                     result := Some r\<rparr>)))))))))"

text \<open>The \<open>catch\<close> of lines 346 to 348 and the \<open>finally\<close> of lines 349 to 353.\<close>

definition catch_block :: "state \<Rightarrow> state" where
  "catch_block s =
     show_toast (ToastError ''Analysis failed. Please try again.'')
       (console_error ''Analysis failed:'' s)"

definition finally_block :: "state \<Rightarrow> state" where
  "finally_block s = s\<lparr>analyzing := False, progress := 0, currentStep := []\<rparr>"

definition analyzeWebsite :: "env \<Rightarrow> state \<Rightarrow> state" where
  "analyzeWebsite e s =
     (if trim (url s) = [] then show_toast (ToastError ''Please enter a valid URL'') s
      else
        (case validUrl e (url s) of
           Inl err \<Rightarrow> show_toast (ToastError ''Please enter a valid URL'') s
         | Inr validUrl' \<Rightarrow>
             finally_block
               (case try_block e validUrl' (s\<lparr>analyzing := True, progress := 0, result := None\<rparr>) of
                  Inl (err, s') \<Rightarrow> catch_block s'
                | Inr s' \<Rightarrow> s')))"

subsection \<open>The other handlers and the derived figures\<close>

text \<open>Lines 368 to 371, the input's \<open>onChange\<close> (line 487) and the sign-in listener
  (lines 139 to 142).\<close>

definition loadHistoryItem :: "AnalysisResult \<Rightarrow> state \<Rightarrow> state" where
  "loadHistoryItem item s = s\<lparr>result := Some item, url := rurl item\<rparr>"

definition setUrl :: "string \<Rightarrow> state \<Rightarrow> state" where
  "setUrl v s = s\<lparr>url := v\<rparr>"

definition setUser :: "user option \<Rightarrow> state \<Rightarrow> state" where
  "setUser u s = s\<lparr>user := u\<rparr>"

text \<open>The \<open>scores\<close> object of the exported document, lines 379 to 386.\<close>

record scores =
  scores_performance :: "number option"
  scores_seo :: "number option"
  scores_accessibility :: "number option"
  scores_design :: "number option"
  scores_ux :: "number option"
  scores_overall :: double

record reportData =
  report_url :: string
  report_timestamp :: string
  report_scores :: scores
  report_analysis :: AnalysisResult

text \<open>
  Lines 373 to 401: nothing without a result; else the document and its file name. The
  handler throws, before anything is shown, where the stored time cannot be rendered
  and where a section is absent.
\<close>

definition exportReport ::
  "env \<Rightarrow> state \<Rightarrow> failure + (reportData \<times> string) option \<times> state" where
  "exportReport e s =
     (case result s of
        None \<Rightarrow> Inr (None, s)
      | Some r \<Rightarrow>
     (case toISOString e (timestamp r) of
        None \<Rightarrow> Inl RangeError
      | Some isoString \<Rightarrow>
     (case scores_of r of
        Inl err \<Rightarrow> Inl err
      | Inr (p, q, a, d, x) \<Rightarrow>
          Inr (Some (\<lparr>report_url = rurl r,
                  report_timestamp = isoString,
                  report_scores = \<lparr>scores_performance = p, scores_seo = q,
                    scores_accessibility = a, scores_design = d, scores_ux = x,
                    scores_overall = Math_round (divide_by_5 (score_sum (p, q, a, d, x)))\<rparr>,
                  report_analysis = r\<rparr>,
                 ''website-analysis-'' @ takeWhile (\<lambda>c. c \<noteq> CHR ''T'') isoString @ ''.json''),
               show_toast (ToastSuccess ''Report exported successfully!'') s))))"

text \<open>The star shown beside each history item, line 876.\<close>

definition history_stars :: "state \<Rightarrow> (failure + double) list" where
  "history_stars s = map overall (history s)"

text \<open>Best Category of the Quick Stats, lines 916 to 921.\<close>

definition best_category :: "AnalysisResult list \<Rightarrow> string" where
  "best_category h = (if length h > 0 then ''Design'' else ''N/A'')"

section \<open>Notions the properties are stated with\<close>


text \<open>An object with the five sections of \<open>a\<close> and no \<open>id\<close>, \<open>url\<close> or \<open>timestamp\<close>.\<close>

definition only_sections :: "analysis \<Rightarrow> parsed" where
  "only_sections a =
     \<lparr>performance = performance a, seo = seo a, accessibility = accessibility a,
      design = design a, ux = ux a, p_id = None, p_url = None, p_timestamp = None\<rparr>"

text \<open>The object without keys.\<close>

definition empty_object :: parsed where
  "empty_object =
     \<lparr>performance = None, seo = None, accessibility = None, design = None, ux = None,
      p_id = None, p_url = None, p_timestamp = None\<rparr>"

text \<open>
  Five sections with five given scores, every detail bundle zeroed and every list
  empty.
\<close>

definition with_scores :: "number \<Rightarrow> number \<Rightarrow> number \<Rightarrow> number \<Rightarrow> number \<Rightarrow> analysis" where
  "with_scores p q a d u =
     \<lparr>performance = Some \<lparr>perf_score = Some p,
        perf_metrics = \<lparr>loadTime = 0, firstContentfulPaint = 0, largestContentfulPaint = 0,
          cumulativeLayoutShift = 0\<rparr>,
        perf_recommendations = []\<rparr>,
      seo = Some \<lparr>seo_score = Some q, seo_issues = [], seo_recommendations = []\<rparr>,
      accessibility = Some \<lparr>acc_score = Some a, acc_violations = [], acc_recommendations = []\<rparr>,
      design = Some \<lparr>design_score = Some d,
        design_analysis = \<lparr>colorContrast = 0, typography = 0, layout = 0, responsiveness = 0\<rparr>,
        design_recommendations = []\<rparr>,
      ux = Some \<lparr>ux_score = Some u,
        ux_metrics = \<lparr>navigationClarity = 0, contentReadability = 0, mobileUsability = 0,
          interactionDesign = 0\<rparr>,
        ux_recommendations = []\<rparr>\<rparr>"

text \<open>The five sections are present and their scores are the five given numbers.\<close>

definition has_scores ::
  "'a analysis_scheme \<Rightarrow> number \<Rightarrow> number \<Rightarrow> number \<Rightarrow> number \<Rightarrow> number \<Rightarrow> bool" where
  "has_scores r p q a d u = (scores_of r = Inr (Some p, Some q, Some a, Some d, Some u))"

text \<open>A score as the data model wants it: an integer from 0 to 100.\<close>

definition is_score :: "number \<Rightarrow> bool" where
  "is_score x = (rat_of_int \<lfloor>x\<rfloor> = x \<and> 0 \<le> x \<and> x \<le> 100)"

text \<open>The object a blob decodes to when it is the faithful encoding of a report.\<close>

definition as_parsed :: "AnalysisResult \<Rightarrow> parsed" where
  "as_parsed r =
     \<lparr>performance = performance r, seo = seo r, accessibility = accessibility r,
      design = design r, ux = ux r,
      p_id = Some (rid r), p_url = Some (rurl r), p_timestamp = Some (timestamp r)\<rparr>"

text \<open>
  The mean of one category over a history window, for the "best category"; there is
  none where an entry lacks the score.
\<close>

datatype category = Performance | SEO | Accessibility | Design | UX

fun category_score :: "category \<Rightarrow> 'a analysis_scheme \<Rightarrow> number option" where
  "category_score Performance r = (case performance r of None \<Rightarrow> None | Some p \<Rightarrow> perf_score p)"
| "category_score SEO r = (case seo r of None \<Rightarrow> None | Some p \<Rightarrow> seo_score p)"
| "category_score Accessibility r =
     (case accessibility r of None \<Rightarrow> None | Some p \<Rightarrow> acc_score p)"
| "category_score Design r = (case design r of None \<Rightarrow> None | Some p \<Rightarrow> design_score p)"
| "category_score UX r = (case ux r of None \<Rightarrow> None | Some p \<Rightarrow> ux_score p)"

fun category_label :: "category \<Rightarrow> string" where
  "category_label Performance = ''Performance''"
| "category_label SEO = ''SEO''"
| "category_label Accessibility = ''Accessibility''"
| "category_label Design = ''Design''"
| "category_label UX = ''UX''"

definition category_mean :: "category \<Rightarrow> AnalysisResult list \<Rightarrow> number option" where
  "category_mean c h =
     (case those (map (category_score c) h) of
        None \<Rightarrow> None
      | Some xs \<Rightarrow> Some (sum_list xs / of_nat (length xs)))"

text \<open>Which stage of a run fails, read off the services' answers in the order of the run.\<close>

definition fetch_fails :: "env \<Rightarrow> string \<Rightarrow> bool" where
  "fetch_fails e v = isl (scrape e v)"

definition capture_fails :: "env \<Rightarrow> string \<Rightarrow> bool" where
  "capture_fails e v = isl (screenshot e v)"

definition analyze_fails :: "env \<Rightarrow> string \<Rightarrow> bool" where
  "analyze_fails e v =
     (case scrape e v of
        Inl err \<Rightarrow> False
      | Inr pg \<Rightarrow> isl (generateObject e (analysisPrompt v pg)))"

definition persist_fails :: "env \<Rightarrow> string \<Rightarrow> state \<Rightarrow> bool" where
  "persist_fails e v s =
     (case scrape e v of
        Inl err \<Rightarrow> False
      | Inr pg \<Rightarrow>
          (case generateObject e (analysisPrompt v pg) of
             Inl err \<Rightarrow> False
           | Inr a \<Rightarrow>
               (case user s of
                  None \<Rightarrow> True
                | Some u \<Rightarrow>
                    (case create_args e u (analysisResult e v a) of
                       Inl err \<Rightarrow> True
                     | Inr args \<Rightarrow> create_rejected e args))))"

text \<open>The progress display at rest: not analyzing, 0 percent, no step label.\<close>

definition progress_reset :: "state \<Rightarrow> bool" where
  "progress_reset s = (\<not> analyzing s \<and> progress s = 0 \<and> currentStep s = [])"

text \<open>
  The states the application is in between two of its operations, the store being
  written by other sessions as well. An export that throws leaves the state as it is.
\<close>

inductive reachable :: "state \<Rightarrow> bool" where
  reachable_initial: "reachable initial"
| reachable_setUser: "reachable s \<Longrightarrow> reachable (setUser u s)"
| reachable_setUrl: "reachable s \<Longrightarrow> reachable (setUrl v s)"
| reachable_loadHistory: "reachable s \<Longrightarrow> reachable (loadHistory e s)"
| reachable_loadHistoryItem: "reachable s \<Longrightarrow> reachable (loadHistoryItem item s)"
| reachable_exportReport:
    "reachable s \<Longrightarrow> exportReport e s = Inr (out, s') \<Longrightarrow> reachable s'"
| reachable_analyzeWebsite: "reachable s \<Longrightarrow> reachable (analyzeWebsite e s)"
| reachable_store: "reachable s \<Longrightarrow> reachable (s\<lparr>db := rows\<rparr>)"

section \<open>Sample data\<close>

definition sample_user :: user where
  "sample_user = \<lparr>user_id = ''u1'', user_email = ''u1@example.com''\<rparr>"

definition sample_page :: page where
  "sample_page = \<lparr>markdown = ''Example Domain'', meta_title = Some ''Example'',
     meta_description = None\<rparr>"

text \<open>
  The report a run assembles at clock reading 1700000000000 from an answer that has the
  sections \<open>a\<close> and no \<open>id\<close>, \<open>url\<close> or \<open>timestamp\<close>.
\<close>

definition sample_report :: "string \<Rightarrow> analysis \<Rightarrow> AnalysisResult" where
  "sample_report v a =
     \<lparr>performance = performance a, seo = seo a, accessibility = accessibility a,
      design = design a, ux = ux a,
      rid = ''analysis_1700000000000'', rurl = v, timestamp = 1700000000000\<rparr>"

text \<open>
  Services that all succeed: a URL parses when it has no white space, the analyzer
  answers with the sections \<open>a\<close> and nothing else, the clock stands at 1700000000000, and
  the codec writes a blob that names the report and reads it back; it reads \<open>{}\<close> as the
  object without keys and nothing else.
\<close>

definition sample_env :: "analysis \<Rightarrow> env" where
  "sample_env a =
     \<lparr>URL_parses = (\<lambda>u. list_all (\<lambda>c. \<not> isWhiteSpace c) u),
      JSON_stringify = (\<lambda>r. ''report '' @ rurl r),
      JSON_parse = (\<lambda>b. if take 7 b = ''report '' then Some (as_parsed (sample_report (drop 7 b) a))
                        else if b = ''{}'' then Some empty_object
                        else None),
      scrape = (\<lambda>v. Inr sample_page),
      screenshot = (\<lambda>v. Inr ''https://cdn.example/shot.png''),
      generateObject = (\<lambda>p. Inr (only_sections a)),
      now_id = 1700000000000,
      now_timestamp = 1700000000000,
      now_createdAt = ''2023-11-14T22:13:20.000Z'',
      toISOString = (\<lambda>t. Some ''2023-11-14T22:13:20.000Z''),
      create_rejected = (\<lambda>r. False),
      list_fails = False\<rparr>"

text \<open>The record a run writes with these services for the URL \<open>v\<close> and five scores.\<close>

definition sample_row ::
  "string \<Rightarrow> number \<Rightarrow> number \<Rightarrow> number \<Rightarrow> number \<Rightarrow> number \<Rightarrow> row" where
  "sample_row v p q a d u =
     \<lparr>row_id = ''analysis_1700000000000'', userId = ''u1'', row_url = v,
      row_timestamp = 1700000000000,
      performanceScore = Some p, seoScore = Some q, accessibilityScore = Some a,
      designScore = Some d, uxScore = Some u,
      analysisData = ''report '' @ v, createdAt = ''2023-11-14T22:13:20.000Z''\<rparr>"

text \<open>A signed-in user who has typed \<open>v\<close> into the input.\<close>

definition typed :: "string \<Rightarrow> state" where
  "typed v = setUrl v (setUser (Some sample_user) initial)"

text \<open>The same services with the screenshot service down.\<close>

definition capture_down :: "analysis \<Rightarrow> env" where
  "capture_down a = (sample_env a)\<lparr>screenshot := (\<lambda>v. Inl CaptureFailure)\<rparr>"

text \<open>Sections whose performance score is 150.\<close>

definition out_of_range :: analysis where
  "out_of_range = with_scores 150 60 90 70 50"

text \<open>Sections whose scores are integers, the first one above \<open>2\<^sup>5\<^sup>3\<close>.\<close>

definition huge_scores :: analysis where
  "huge_scores = with_scores 9007199254740994 1 1 1 1"



text \<open>A history window of one report whose best category is performance.\<close>

definition fast_but_plain :: "AnalysisResult list" where
  "fast_but_plain = [sample_report ''https://example.com'' (with_scores 90 60 70 10 50)]"

section \<open>Rounding to a double\<close>

lemma pow2_pos: "0 < pow2 k"
  by (simp add: pow2_def)

lemma pow2_nonneg: "0 \<le> k \<Longrightarrow> pow2 k = 2 ^ nat k"
  by (simp add: pow2_def)

lemma pow2_neg: "k \<le> 0 \<Longrightarrow> pow2 k = 1 / 2 ^ nat (- k)"
  by (cases "k = 0") (simp_all add: pow2_def)

lemma pow2_mono: "j \<le> k \<Longrightarrow> pow2 j \<le> pow2 k"
proof -
  assume jk: "j \<le> k"
  have pos: "(0::rat) < 2 ^ n" for n by simp
  show ?thesis
  proof (cases "0 \<le> j")
    case True
    with jk show ?thesis by (simp add: pow2_def power_increasing)
  next
    case negj: False
    show ?thesis
    proof (cases "0 \<le> k")
      case True
      have "1 / 2 ^ nat (- j) \<le> (1::rat)" by simp
      also have "\<dots> \<le> 2 ^ nat k" by simp
      finally show ?thesis using negj True by (simp add: pow2_def)
    next
      case False
      with jk negj have "nat (- k) \<le> nat (- j)" by simp
      then have "(2::rat) ^ nat (- k) \<le> 2 ^ nat (- j)" by (simp add: power_increasing)
      then have "1 / (2::rat) ^ nat (- j) \<le> 1 / 2 ^ nat (- k)"
        by (simp add: frac_le)
      with negj False show ?thesis by (simp add: pow2_def)
    qed
  qed
qed

lemma halvings_lower: "1 \<le> x \<Longrightarrow> 2 ^ halvings x \<le> x"
proof (induction x rule: halvings.induct)
  case (1 x)
  show ?case
  proof (cases "2 \<le> x")
    case True
    then have "1 \<le> x / 2" by simp
    with "1.IH" True have "2 ^ halvings (x / 2) \<le> x / 2" by simp
    then show ?thesis using True by (subst halvings.simps) simp
  next
    case False
    then show ?thesis using "1.prems" by (subst halvings.simps) simp
  qed
qed

lemma halvings_upper: "0 \<le> x \<Longrightarrow> x < 2 ^ Suc (halvings x)"
proof (induction x rule: halvings.induct)
  case (1 x)
  show ?case
  proof (cases "2 \<le> x")
    case True
    then have "0 \<le> x / 2" by simp
    with "1.IH" True have "x / 2 < 2 ^ Suc (halvings (x / 2))" by simp
    then show ?thesis using True by (subst halvings.simps) simp
  next
    case False
    then show ?thesis by (subst halvings.simps) simp
  qed
qed

lemma halvings_unique:
  assumes "2 ^ n \<le> x" and "x < 2 ^ Suc n"
  shows "halvings x = n"
proof -
  have x1: "1 \<le> x" using assms(1) one_le_power [of "2::rat" n] by linarith
  have lo: "(2::rat) ^ halvings x \<le> x" using x1 by (rule halvings_lower)
  have hi: "x < 2 ^ Suc (halvings x)" using x1 by (intro halvings_upper) simp
  from lo assms(2) have "(2::rat) ^ halvings x < 2 ^ Suc n" by (rule le_less_trans)
  then have a: "halvings x < Suc n" by (simp only: power_strict_increasing_iff) 
  from assms(1) hi have "(2::rat) ^ n < 2 ^ Suc (halvings x)" by (rule le_less_trans)
  then have b: "n < Suc (halvings x)" by (simp only: power_strict_increasing_iff)
  from a b show ?thesis by simp
qed

lemma exponent_unique:
  assumes "2 ^ n \<le> x" and "x < 2 ^ Suc n"
  shows "exponent x = int n"
proof -
  have "1 \<le> x" using assms(1) one_le_power [of "2::rat" n] by linarith
  then show ?thesis by (simp add: exponent_def halvings_unique [OF assms])
qed

lemma exponent_le:
  assumes "0 < x" and "x < 2 ^ Suc n"
  shows "exponent x \<le> int n"
proof (cases "1 \<le> x")
  case True
  then have "(2::rat) ^ halvings x \<le> x" by (rule halvings_lower)
  from this assms(2) have "(2::rat) ^ halvings x < 2 ^ Suc n" by (rule le_less_trans)
  then have "halvings x < Suc n" by (simp only: power_strict_increasing_iff)
  with True show ?thesis by (simp add: exponent_def)
next
  case False
  then show ?thesis by (simp add: exponent_def)
qed

lemma round_half_even_of_int: "round_half_even (of_int n) = n"
  by (simp add: round_half_even_def)

lemma round_half_even_error: "\<bar>rat_of_int (round_half_even y) - y\<bar> \<le> 1 / 2"
proof -
  have "rat_of_int \<lfloor>y\<rfloor> \<le> y" and "y < rat_of_int \<lfloor>y\<rfloor> + 1" by linarith+
  then show ?thesis
    by (auto simp: round_half_even_def Let_def abs_le_iff)
qed

lemma pow2_1024_big: "(2::rat) ^ 53 \<le> pow2 1024"
proof -
  have "(2::rat) ^ 53 \<le> 2 ^ 1024" by (rule power_increasing) simp_all
  then show ?thesis by (simp add: pow2_def)
qed

lemma round_double_nonzero:
  assumes "x \<noteq> 0" and "q = max (exponent \<bar>x\<bar> - 52) (- 1074)"
    and "y = rat_of_int (round_half_even (x / pow2 q)) * pow2 q"
  shows "round_double x =
     (if pow2 1024 \<le> y then PosInfinity else if y \<le> - pow2 1024 then NegInfinity else Finite y)"
  using assms by (simp add: round_double_def Let_def)

lemma round_double_of_int:
  assumes "0 \<le> k" and "rat_of_int k < 2 ^ 53"
  shows "round_double (of_int k) = Finite (of_int k)"
proof (cases "k = 0")
  case True
  then show ?thesis by (simp add: round_double_def)
next
  case False
  let ?x = "rat_of_int k"
  from False assms(1) have pos: "0 < ?x" by simp
  then have nz: "?x \<noteq> 0" by simp
  have e: "exponent \<bar>?x\<bar> \<le> 52"
    using exponent_le [of ?x 52] pos assms(2) by simp
  define q where "q = max (exponent \<bar>?x\<bar> - 52) (- 1074)"
  define y where "y = rat_of_int (round_half_even (?x / pow2 q)) * pow2 q"
  note rd = round_double_nonzero [OF nz q_def y_def]
  have q0: "q \<le> 0" using e by (simp add: q_def)
  have scaled: "?x / pow2 q = rat_of_int (k * 2 ^ nat (- q))"
    using q0 by (simp add: pow2_neg)
  have unscaled: "rat_of_int (k * 2 ^ nat (- q)) * pow2 q = ?x"
    using q0 by (simp add: pow2_neg)
  have y: "y = ?x"
    unfolding y_def scaled round_half_even_of_int by (rule unscaled)
  have "?x < pow2 1024" using assms(2) pow2_1024_big by linarith
  moreover have "- pow2 1024 < ?x" using pos pow2_pos [of 1024] by linarith
  ultimately show ?thesis unfolding rd y by simp
qed

lemma round_double_error:
  assumes "0 < x" and "x < 2 ^ 7"
  shows "\<exists>y. round_double x = Finite y \<and> \<bar>y - x\<bar> \<le> 1 / 2 ^ 47"
proof -
  from assms(1) have nz: "x \<noteq> 0" by simp
  have e: "exponent \<bar>x\<bar> \<le> 6"
    using exponent_le [of x 6] assms by simp
  define q where "q = max (exponent \<bar>x\<bar> - 52) (- 1074)"
  define y where "y = rat_of_int (round_half_even (x / pow2 q)) * pow2 q"
  note rd = round_double_nonzero [OF nz q_def y_def]
  have q46: "q \<le> - 46" using e by (simp add: q_def)
  have "\<bar>y - x\<bar> = \<bar>rat_of_int (round_half_even (x / pow2 q)) - x / pow2 q\<bar> * pow2 q"
  proof -
    have "y - x = (rat_of_int (round_half_even (x / pow2 q)) - x / pow2 q) * pow2 q"
      using pow2_pos [of q] by (simp add: y_def field_simps)
    then show ?thesis using pow2_pos [of q] by (simp add: abs_mult)
  qed
  also have "\<dots> \<le> 1 / 2 * pow2 q"
    using round_half_even_error [of "x / pow2 q"] pow2_pos [of q]
    by (intro mult_right_mono) simp_all
  also have "\<dots> \<le> 1 / 2 * pow2 (- 46)"
    using pow2_mono [OF q46] by simp
  also have "\<dots> = 1 / 2 ^ 47" by (simp add: pow2_def)
  finally have err: "\<bar>y - x\<bar> \<le> 1 / 2 ^ 47" .
  have small: "(1::rat) / 2 ^ 47 \<le> 1" by simp
  from err small have near: "\<bar>y - x\<bar> \<le> 1" by (rule order_trans)
  have "(2::rat) ^ 7 + 1 < 2 ^ 53" by simp
  with near assms(2) have "y < 2 ^ 53" by linarith
  then have hi: "y < pow2 1024" using pow2_1024_big by linarith
  have "- 1 < y" using near assms(1) by linarith
  moreover have "(1::rat) \<le> 2 ^ 53" by simp
  ultimately have lo: "- pow2 1024 < y"
    using pow2_1024_big by linarith
  have "round_double x = Finite y"
    unfolding rd using hi lo by simp
  with err show ?thesis by blast
qed

lemma fifth_rounds:
  assumes "0 \<le> k" and "k \<le> 500"
  shows "Math_round (divide_by_5 (Finite (rat_of_int k))) = Finite (rat_of_int ((2 * k + 5) div 10))"
proof (cases "k = 0")
  case True
  then show ?thesis by (simp add: round_double_def floor_eq_iff)
next
  case False
  let ?x = "rat_of_int k / 5"
  let ?n = "(2 * k + 5) div 10"
  have "0 < ?x" using False assms(1) by simp
  moreover have "?x < 2 ^ 7" using assms(2) by simp
  ultimately obtain y where rd: "round_double ?x = Finite y" and err: "\<bar>y - ?x\<bar> \<le> 1 / 2 ^ 47"
    using round_double_error by blast
  have odd: "(2 * k + 5) mod 10 \<in> {1, 3, 5, 7, 9}"
  proof -
    have "(2 * k + 5) mod 10 mod 2 = 1" by presburger
    moreover have "0 \<le> (2 * k + 5) mod 10" "(2 * k + 5) mod 10 < 10" by simp_all
    ultimately show ?thesis by auto presburger
  qed
  have split: "2 * k + 5 = 10 * ?n + (2 * k + 5) mod 10" by simp
  have "rat_of_int (2 * k + 5) = rat_of_int (10 * ?n + (2 * k + 5) mod 10)"
    by (simp only: mult_div_mod_eq)
  then have parts: "rat_of_int (2 * k + 5) = 10 * rat_of_int ?n + rat_of_int ((2 * k + 5) mod 10)"
    by (simp only: of_int_add of_int_mult of_int_numeral)
  have "?x + 1 / 2 = rat_of_int (2 * k + 5) / 10" by simp
  also have "\<dots> = (10 * rat_of_int ?n + rat_of_int ((2 * k + 5) mod 10)) / 10"
    by (simp only: parts)
  also have "\<dots> = rat_of_int ?n + rat_of_int ((2 * k + 5) mod 10) / 10"
    by (simp only: add_divide_distrib nonzero_mult_div_cancel_left)
  finally have x_eq: "?x + 1 / 2 = rat_of_int ?n + rat_of_int ((2 * k + 5) mod 10) / 10" .
  have lo: "rat_of_int ?n + 1 / 10 \<le> ?x + 1 / 2" and hi: "?x + 1 / 2 \<le> rat_of_int ?n + 9 / 10"
    using odd unfolding x_eq by auto
  have tiny: "(1::rat) / 2 ^ 47 < 1 / 10" by simp
  have "\<lfloor>y + 1 / 2\<rfloor> = ?n"
  proof (rule floor_unique)
    from err tiny have close: "\<bar>y - ?x\<bar> < 1 / 10" by (rule le_less_trans)
    show "rat_of_int ?n \<le> y + 1 / 2" using close lo by linarith
    show "y + 1 / 2 < rat_of_int ?n + 1" using close hi by linarith
  qed
  then show ?thesis by (simp add: rd)
qed

lemma round_half_even_eval:
  assumes "rat_of_int f \<le> y" and "y < rat_of_int f + 1"
  shows "round_half_even y =
     (if y - of_int f < 1 / 2 then f else if 1 / 2 < y - of_int f then f + 1
      else if even f then f else f + 1)"
proof -
  have "\<lfloor>y\<rfloor> = f" using assms by (rule floor_unique)
  then show ?thesis by (simp add: round_half_even_def Let_def)
qed

lemma round_double_eval:
  assumes "0 < x" and "2 ^ n \<le> x" and "x < 2 ^ Suc n"
    and "q = int n - 52"
    and "rat_of_int f \<le> x / pow2 q" and "x / pow2 q < rat_of_int f + 1"
    and "m = (if x / pow2 q - of_int f < 1 / 2 then f else if 1 / 2 < x / pow2 q - of_int f then f + 1
      else if even f then f else f + 1)"
    and "y = rat_of_int m * pow2 q"
    and "0 \<le> y" and "y < 2 ^ 1024"
  shows "round_double x = Finite y"
proof -
  have nz: "x \<noteq> 0" using assms(1) by simp
  have e: "exponent \<bar>x\<bar> = int n"
    using exponent_unique [OF assms(2,3)] assms(1) by simp
  have q: "q = max (exponent \<bar>x\<bar> - 52) (- 1074)"
    unfolding e assms(4) by simp
  have y: "y = rat_of_int (round_half_even (x / pow2 q)) * pow2 q"
    unfolding round_half_even_eval [OF assms(5,6)] assms(8) assms(7) by (rule refl)
  have "- pow2 1024 < y" using assms(9) pow2_pos [of 1024] by linarith
  moreover have "y < pow2 1024" using assms(10) by (simp add: pow2_def)
  ultimately show ?thesis
    unfolding round_double_nonzero [OF nz q y] by simp
qed

lemma big_plus_one: "round_double 9007199254740995 = Finite 9007199254740996"
  by (rule round_double_eval [where n = 53 and q = 1 and f = 4503599627370497
        and m = 4503599627370498])
    (simp_all add: pow2_def)

lemma big_plus_one_again: "round_double 9007199254740997 = Finite 9007199254740996"
  by (rule round_double_eval [where n = 53 and q = 1 and f = 4503599627370498
        and m = 4503599627370498])
    (simp_all add: pow2_def)

lemma big_fifth: "round_double (9007199254740996 / 5) = Finite (7205759403792797 / 4)"
  by (rule round_double_eval [where n = 50 and q = "- 2" and f = 7205759403792796
        and m = 7205759403792797])
    (simp_all add: pow2_def)

lemma big_itself: "round_double 9007199254740994 = Finite 9007199254740994"
  by (rule round_double_eval [where n = 53 and q = 1 and f = 4503599627370497
        and m = 4503599627370497])
    (simp_all add: pow2_def)

lemma one_itself: "round_double 1 = Finite 1"
  using round_double_of_int [of 1] by simp

lemma big_overall:
  "Math_round (divide_by_5 (score_sum (Some 9007199254740994, Some 1, Some 1, Some 1, Some 1)))
     = Finite 1801439850948199"
  by (simp add: score_sum_def to_double_def big_itself one_itself big_plus_one
      big_plus_one_again big_fifth floor_eq_iff)

lemma four_itself: "round_double 4 = Finite 4"
  using round_double_of_int [of 4] by simp

lemma zero_itself: "round_double 0 = Finite 0"
  by (simp add: round_double_def)

lemma near_half_itself:
  "round_double (7881299347898367 / 2251799813685248) = Finite (7881299347898367 / 2251799813685248)"
  by (rule round_double_eval [where n = 1 and q = "- 51" and f = 7881299347898367
        and m = 7881299347898367])
    (simp_all add: pow2_def)

lemma near_sum:
  "round_double (16888498602639359 / 2251799813685248) = Finite (15 / 2)"
  by (rule round_double_eval [where n = 2 and q = "- 50" and f = 8444249301319679
        and m = 8444249301319680])
    (simp_all add: pow2_def)

lemma seven_and_a_half: "round_double (15 / 2) = Finite (15 / 2)"
  by (rule round_double_eval [where n = 2 and q = "- 50" and f = 8444249301319680
        and m = 8444249301319680])
    (simp_all add: pow2_def)

lemma one_and_a_half: "round_double (3 / 2) = Finite (3 / 2)"
  by (rule round_double_eval [where n = 0 and q = "- 52" and f = 6755399441055744
        and m = 6755399441055744])
    (simp_all add: pow2_def)

lemma near_overall:
  "Math_round (divide_by_5 (score_sum (Some 4, Some (7881299347898367 / 2251799813685248),
      Some 0, Some 0, Some 0))) = Finite 2"
  by (simp add: score_sum_def to_double_def four_itself zero_itself near_half_itself near_sum
      seven_and_a_half one_and_a_half floor_eq_iff)

section \<open>Decimal numerals\<close>

lemma digits_small: "n < 10 \<Longrightarrow> digits n = [digit n]"
  by (simp add: digits.simps)

lemma digits_large: "10 \<le> n \<Longrightarrow> digits n = digits (n div 10) @ [digit (n mod 10)]"
  by (subst digits.simps) simp

lemma analysis_id_sample: "analysis_id 1700000000000 = ''analysis_1700000000000''"
  by (simp add: analysis_id_def ToString_def digits_small digits_large digit_def)

lemma digit_inj: "a < 10 \<Longrightarrow> b < 10 \<Longrightarrow> digit a = digit b \<Longrightarrow> a = b"
proof -
  assume a: "a < 10" and b: "b < 10" and eq: "digit a = digit b"
  have da: "a \<in> {0,1,2,3,4,5,6,7,8,9}" using a by auto
  have db: "b \<in> {0,1,2,3,4,5,6,7,8,9}" using b by auto
  show ?thesis using da db eq by (auto simp: digit_def)
qed

lemma digit_not_minus: "d < 10 \<Longrightarrow> digit d \<noteq> CHR ''-''"
proof -
  assume "d < 10"
  then have "d \<in> {0,1,2,3,4,5,6,7,8,9}" by auto
  then show ?thesis by (auto simp: digit_def)
qed

lemma digits_nonempty: "digits n \<noteq> []"
  by (subst digits.simps) simp

lemma length_digits_small: "n < 10 \<Longrightarrow> length (digits n) = 1"
  by (simp add: digits_small)

lemma length_digits_large: "\<not> n < 10 \<Longrightarrow> 2 \<le> length (digits n)"
  using digits_nonempty [of "n div 10"] by (simp add: digits_large Suc_le_eq)

lemma digits_inj: "digits m = digits n \<Longrightarrow> m = n"
proof (induction m arbitrary: n rule: digits.induct)
  case (1 m)
  from "1.prems" have len: "length (digits m) = length (digits n)" by simp
  show ?case
  proof (cases "m < 10")
    case small_m: True
    show ?thesis
    proof (cases "n < 10")
      case True
      with small_m "1.prems" show ?thesis by (simp add: digits_small digit_inj)
    next
      case False
      with small_m len length_digits_small [of m] length_digits_large [of n]
      show ?thesis by simp
    qed
  next
    case large_m: False
    show ?thesis
    proof (cases "n < 10")
      case True
      with large_m len length_digits_small [of n] length_digits_large [of m]
      show ?thesis by simp
    next
      case False
      with large_m "1.prems"
      have eq: "digits (m div 10) @ [digit (m mod 10)] = digits (n div 10) @ [digit (n mod 10)]"
        by (simp add: digits_large)
      then have "digits (m div 10) = digits (n div 10)" and d: "digit (m mod 10) = digit (n mod 10)"
        by simp_all
      with "1.IH" large_m have "m div 10 = n div 10" by simp
      moreover have "m mod 10 = n mod 10" using d by (intro digit_inj) simp_all
      ultimately show ?thesis by (metis div_mult_mod_eq)
    qed
  qed
qed

lemma hd_digits_not_minus: "hd (digits n) \<noteq> CHR ''-''"
proof (induction n rule: digits.induct)
  case (1 n)
  show ?case
  proof (cases "n < 10")
    case True
    then show ?thesis by (simp add: digits_small digit_not_minus)
  next
    case False
    with "1.IH" show ?thesis by (simp add: digits_large digits_nonempty)
  qed
qed

lemma ToString_inj: "ToString i = ToString j \<Longrightarrow> i = j"
proof -
  assume eq: "ToString i = ToString j"
  have neq: "CHR ''-'' # digits a \<noteq> digits b" for a b
    using hd_digits_not_minus [of b] by (cases "digits b") auto
  show ?thesis
  proof (cases "i < 0")
    case neg_i: True
    show ?thesis
    proof (cases "j < 0")
      case True
      with neg_i eq have "nat (- i) = nat (- j)" by (simp add: ToString_def digits_inj)
      with neg_i True show ?thesis by simp
    next
      case False
      with neg_i eq neq show ?thesis by (simp add: ToString_def)
    qed
  next
    case pos_i: False
    show ?thesis
    proof (cases "j < 0")
      case True
      with pos_i eq neq [of "nat (- j)" "nat i"] show ?thesis by (simp add: ToString_def)
    next
      case False
      with pos_i eq have "nat i = nat j" by (simp add: ToString_def digits_inj)
      with pos_i False show ?thesis by simp
    qed
  qed
qed

lemma analysis_id_inj: "analysis_id t1 = analysis_id t2 \<longleftrightarrow> t1 = t2"
  by (auto simp: analysis_id_def dest: ToString_inj)

section \<open>How a run proceeds\<close>

lemma loadHistory_keeps:
  "db (loadHistory e s) = db s" "result (loadHistory e s) = result s"
  "user (loadHistory e s) = user s" "url (loadHistory e s) = url s"
  "analyzing (loadHistory e s) = analyzing s" "progress (loadHistory e s) = progress s"
  "currentStep (loadHistory e s) = currentStep s"
  by (simp_all add: loadHistory_def show_toast_def console_error_def split: option.splits sum.splits)

lemma try_block_Inl:
  assumes "try_block e v s0 = Inl (err, s')"
  shows "db s' = db s0 \<and> result s' = result s0 \<and> toasts s' = toasts s0 \<and> console s' = console s0
    \<and> history s' = history s0 \<and> user s' = user s0 \<and> url s' = url s0"
  using assms
  by (auto simp: try_block_def Let_def split: sum.splits option.splits)

lemma try_block_isl:
  "isl (try_block e v s0)
   \<longleftrightarrow> fetch_fails e v \<or> capture_fails e v \<or> analyze_fails e v \<or> persist_fails e v s0"
  by (auto simp: try_block_def Let_def fetch_fails_def capture_fails_def analyze_fails_def
        persist_fails_def db_create_def split: sum.splits option.splits)

lemma try_block_Inr:
  assumes "try_block e v s0 = Inr s'"
  shows "\<exists>pg sh a u args. scrape e v = Inr pg \<and> screenshot e v = Inr sh
     \<and> generateObject e (analysisPrompt v pg) = Inr a \<and> user s0 = Some u
     \<and> create_args e u (analysisResult e v a) = Inr args
     \<and> \<not> create_rejected e args
     \<and> db s' = db s0 @ [args]
     \<and> result s' = Some (analysisResult e v a)"
  using assms
  by (auto simp: try_block_def Let_def db_create_def show_toast_def loadHistory_keeps
      split: sum.splits option.splits if_splits)

lemma analyzeWebsite_rejected:
  assumes "trim (url s) = [] \<or> isl (validUrl e (url s))"
  shows "analyzeWebsite e s = show_toast (ToastError ''Please enter a valid URL'') s"
  using assms by (auto simp: analyzeWebsite_def split: sum.splits)

lemma analyzeWebsite_started:
  assumes "trim (url s) \<noteq> []" and "validUrl e (url s) = Inr v"
  shows "analyzeWebsite e s =
     finally_block
       (case try_block e v (s\<lparr>analyzing := True, progress := 0, result := None\<rparr>) of
          Inl (err, s') \<Rightarrow> catch_block s'
        | Inr s' \<Rightarrow> s')"
  using assms by (simp add: analyzeWebsite_def)

lemma finally_block_reset: "progress_reset (finally_block s)"
  by (simp add: finally_block_def progress_reset_def)

lemma reachable_progress_reset: "reachable s \<Longrightarrow> progress_reset s"
proof (induction rule: reachable.induct)
  case reachable_initial
  show ?case by (simp add: initial_def progress_reset_def)
next
  case (reachable_analyzeWebsite s e)
  show ?case
  proof (cases "trim (url s) = [] \<or> isl (validUrl e (url s))")
    case True
    then show ?thesis using reachable_analyzeWebsite.IH
      by (simp add: analyzeWebsite_rejected show_toast_def progress_reset_def)
  next
    case False
    then obtain v where "trim (url s) \<noteq> []" "validUrl e (url s) = Inr v"
      by (cases "validUrl e (url s)") auto
    then show ?thesis by (simp add: analyzeWebsite_started finally_block_reset)
  qed
next
  case (reachable_loadHistory s e)
  then show ?case by (simp add: progress_reset_def loadHistory_keeps)
next
  case (reachable_exportReport s e out s')
  then show ?case
    by (auto simp: progress_reset_def exportReport_def show_toast_def
        split: option.splits sum.splits prod.splits)
qed (simp_all add: progress_reset_def setUser_def setUrl_def loadHistoryItem_def)

lemma try_block_Inr_keeps:
  assumes "try_block e v s0 = Inr s'"
  shows "user s' = user s0 \<and> url s' = url s0"
  using assms
  by (auto simp: try_block_def Let_def db_create_def show_toast_def loadHistory_keeps
      split: sum.splits option.splits if_splits)

lemma analyzeWebsite_keeps: "user (analyzeWebsite e s) = user s \<and> url (analyzeWebsite e s) = url s"
proof (cases "trim (url s) = [] \<or> isl (validUrl e (url s))")
  case True
  then show ?thesis by (simp add: analyzeWebsite_rejected show_toast_def)
next
  case False
  then obtain v where started: "trim (url s) \<noteq> []" "validUrl e (url s) = Inr v"
    by (cases "validUrl e (url s)") auto
  let ?s0 = "s\<lparr>analyzing := True, progress := 0, result := None\<rparr>"
  show ?thesis
  proof (cases "try_block e v ?s0")
    case (Inl p)
    then obtain err s' where "try_block e v ?s0 = Inl (err, s')" by (cases p) auto
    with try_block_Inl [OF this] show ?thesis
      by (simp add: analyzeWebsite_started [OF started] finally_block_def catch_block_def
          show_toast_def console_error_def)
  next
    case (Inr s')
    with try_block_Inr_keeps [OF this] show ?thesis
      by (simp add: analyzeWebsite_started [OF started] finally_block_def)
  qed
qed

lemma analyzeWebsite_db:
  "db (analyzeWebsite e s) = db s
   \<or> (\<exists>v pg a u args. trim (url s) \<noteq> [] \<and> validUrl e (url s) = Inr v \<and> scrape e v = Inr pg
        \<and> generateObject e (analysisPrompt v pg) = Inr a \<and> user s = Some u
        \<and> create_args e u (analysisResult e v a) = Inr args
        \<and> db (analyzeWebsite e s) = db s @ [args]
        \<and> result (analyzeWebsite e s) = Some (analysisResult e v a))"
proof (cases "trim (url s) = [] \<or> isl (validUrl e (url s))")
  case True
  then show ?thesis by (simp add: analyzeWebsite_rejected show_toast_def)
next
  case False
  then obtain v where started: "trim (url s) \<noteq> []" "validUrl e (url s) = Inr v"
    by (cases "validUrl e (url s)") auto
  let ?s0 = "s\<lparr>analyzing := True, progress := 0, result := None\<rparr>"
  show ?thesis
  proof (cases "try_block e v ?s0")
    case (Inl p)
    then obtain err s' where "try_block e v ?s0 = Inl (err, s')" by (cases p) auto
    with try_block_Inl [OF this] have "db (analyzeWebsite e s) = db s"
      by (simp add: analyzeWebsite_started [OF started] finally_block_def catch_block_def
          show_toast_def console_error_def)
    then show ?thesis ..
  next
    case (Inr s')
    from try_block_Inr [OF this] obtain pg sh a u args where
      "scrape e v = Inr pg" "generateObject e (analysisPrompt v pg) = Inr a" "user s = Some u"
      "create_args e u (analysisResult e v a) = Inr args"
      "db s' = db s @ [args]"
      "result s' = Some (analysisResult e v a)"
      by auto
    with Inr started show ?thesis
      by (simp add: analyzeWebsite_started [OF started] finally_block_def)
  qed
qed


lemma create_args_Inr:
  assumes "create_args e u r = Inr rw"
  shows "scores_of r = Inr (performanceScore rw, seoScore rw, accessibilityScore rw,
      designScore rw, uxScore rw)
    \<and> row_id rw = rid r \<and> row_url rw = rurl r \<and> row_timestamp rw = timestamp r
    \<and> userId rw = user_id u \<and> analysisData rw = JSON_stringify e r"
  using assms by (auto simp: create_args_def split: sum.splits prod.splits)

section \<open>The sample data evaluated\<close>

lemma typed_simps:
  "url (typed v) = v" "user (typed v) = Some sample_user" "db (typed v) = []"
  "toasts (typed v) = []" "result (typed v) = None" "history (typed v) = []"
  "console (typed v) = []"
  by (simp_all add: typed_def setUrl_def setUser_def initial_def)

lemma reachable_typed: "reachable (typed v)"
  unfolding typed_def by (intro reachable_setUrl reachable_setUser reachable_initial)

lemma trim_example: "trim ''example.com'' = ''example.com''"
  by (simp add: trim_def isWhiteSpace_def)

lemma with_scheme_example: "with_scheme ''example.com'' = ''https://example.com''"
  by (simp add: with_scheme_def startsWith_def)

lemma sample_validUrl:
  "validUrl (sample_env a) ''example.com'' = Inr ''https://example.com''"
  by (simp add: validUrl_def with_scheme_example sample_env_def isWhiteSpace_def)

lemma capture_down_validUrl:
  "validUrl (capture_down a) ''example.com'' = Inr ''https://example.com''"
  using sample_validUrl [of a] by (simp add: validUrl_def capture_down_def)

lemma sample_env_simps:
  "scrape (sample_env a) v = Inr sample_page"
  "screenshot (sample_env a) v = Inr ''https://cdn.example/shot.png''"
  "generateObject (sample_env a) p = Inr (only_sections a)"
  "create_rejected (sample_env a) rw = False"
  "list_fails (sample_env a) = False"
  "JSON_stringify (sample_env a) r = ''report '' @ rurl r"
  "JSON_parse (sample_env a) b =
     (if take 7 b = ''report '' then Some (as_parsed (sample_report (drop 7 b) a))
      else if b = ''{}'' then Some empty_object
      else None)"
  "now_id (sample_env a) = 1700000000000"
  "now_timestamp (sample_env a) = 1700000000000"
  "now_createdAt (sample_env a) = ''2023-11-14T22:13:20.000Z''"
  "toISOString (sample_env a) t = Some ''2023-11-14T22:13:20.000Z''"
  unfolding sample_env_def by (simp_all only: env.select_convs)

lemma sample_analysisResult: "analysisResult (sample_env a) v (only_sections a) = sample_report v a"
  by (simp add: analysisResult_def spread_def only_sections_def sample_report_def
      analysis_id_sample sample_env_simps)

lemma scores_of_with_scores:
  "scores_of (sample_report v (with_scores p q a d u)) = Inr (Some p, Some q, Some a, Some d, Some u)"
  "scores_of (with_scores p q a d u) = Inr (Some p, Some q, Some a, Some d, Some u)"
  by (simp_all add: scores_of_def sample_report_def with_scores_def)

lemma sample_create_args:
  "create_args (sample_env b) sample_user (sample_report v (with_scores p q a d u))
     = Inr (sample_row v p q a d u)"
  by (simp add: create_args_def scores_of_with_scores sample_env_simps sample_row_def
      sample_user_def)
    (simp add: sample_report_def)

lemma sample_run:
  assumes "user s = Some sample_user" and "trim (url s) \<noteq> []"
    and "validUrl (sample_env (with_scores p q a d u)) (url s) = Inr v"
  shows "db (analyzeWebsite (sample_env (with_scores p q a d u)) s)
           = db s @ [sample_row v p q a d u]"
    and "result (analyzeWebsite (sample_env (with_scores p q a d u)) s)
           = Some (sample_report v (with_scores p q a d u))"
proof -
  let ?e = "sample_env (with_scores p q a d u)"
  let ?s0 = "s\<lparr>analyzing := True, progress := 0, result := None\<rparr>"
  have "\<not> isl (try_block ?e v ?s0)"
    using assms(1)
    by (simp add: try_block_isl fetch_fails_def capture_fails_def analyze_fails_def
        persist_fails_def sample_env_simps sample_analysisResult sample_create_args)
  then obtain s' where tb: "try_block ?e v ?s0 = Inr s'"
    by (cases "try_block ?e v ?s0") auto
  from try_block_Inr [OF tb] assms(1)
  have "db s' = db s @ [sample_row v p q a d u]"
    and "result s' = Some (sample_report v (with_scores p q a d u))"
    by (auto simp: sample_env_simps sample_analysisResult sample_create_args)
  then show "db (analyzeWebsite ?e s) = db s @ [sample_row v p q a d u]"
    and "result (analyzeWebsite ?e s) = Some (sample_report v (with_scores p q a d u))"
    by (simp_all add: analyzeWebsite_started [OF assms(2,3)] tb finally_block_def)
qed

lemma sample_first_run:
  "db (analyzeWebsite (sample_env (with_scores p q a d u)) (typed ''example.com''))
     = [sample_row ''https://example.com'' p q a d u]"
  "result (analyzeWebsite (sample_env (with_scores p q a d u)) (typed ''example.com''))
     = Some (sample_report ''https://example.com'' (with_scores p q a d u))"
  using sample_run [of "typed ''example.com''" p q a d u "''https://example.com''"]
  by (simp_all add: typed_simps trim_example sample_validUrl)

lemma sample_row_simps:
  "row_id (sample_row v p q a d u) = ''analysis_1700000000000''"
  "userId (sample_row v p q a d u) = ''u1''"
  "row_url (sample_row v p q a d u) = v"
  "performanceScore (sample_row v p q a d u) = Some p"
  "seoScore (sample_row v p q a d u) = Some q"
  "accessibilityScore (sample_row v p q a d u) = Some a"
  "designScore (sample_row v p q a d u) = Some d"
  "uxScore (sample_row v p q a d u) = Some u"
  "analysisData (sample_row v p q a d u) = ''report '' @ v"
  by (simp_all add: sample_row_def)

lemma sample_db_list_one:
  "db_list (sample_env a) [rw] (userId rw) 10 = Inr [rw]"
  by (simp add: db_list_def sample_env_simps)

section \<open>The scores a run persists\<close>




section \<open>Writing a report and reading it back\<close>

lemma parse_item_well_formed:
  assumes "JSON_parse e (analysisData item) = Some (as_parsed r)"
  shows "parse_item e item = r"
  using assms by (simp add: parse_item_def spread_parsed_def spread_def as_parsed_def)

text \<open>
  C2. A report written by \<open>create\<close> and retrieved by \<open>list\<close>, whose stored blob is
  well formed (it parses to the object that was encoded), is decoded to an entry with
  the report's \<open>id\<close>, \<open>url\<close>, \<open>timestamp\<close> and five scores, which are the scores in the
  record's columns; \<open>list\<close> returns only records of the store.
\<close>

theorem stored_report_reads_back:
  assumes built: "create_args e u r = Inr rw"
    and written: "db_create e rows rw = Inr rows'"
    and listed: "db_list e' rows' uid n = Inr items"
    and retrieved: "item \<in> set items" "item = rw"
    and well_formed: "JSON_parse e' (analysisData item) = Some (as_parsed r)"
  shows "rid (parse_item e' item) = rid r
    \<and> rurl (parse_item e' item) = rurl r
    \<and> timestamp (parse_item e' item) = timestamp r
    \<and> performance (parse_item e' item) = performance r
    \<and> seo (parse_item e' item) = seo r
    \<and> accessibility (parse_item e' item) = accessibility r
    \<and> design (parse_item e' item) = design r
    \<and> ux (parse_item e' item) = ux r
    \<and> scores_of (parse_item e' item) = scores_of r
    \<and> scores_of (parse_item e' item)
        = Inr (performanceScore item, seoScore item, accessibilityScore item, designScore item,
            uxScore item)
    \<and> item \<in> set rows'"
proof -
  have same: "parse_item e' item = r" using well_formed by (rule parse_item_well_formed)
  have "set items \<subseteq> set rows'"
    using listed by (auto simp: db_list_def split: if_splits dest: in_set_takeD)
  with retrieved have "item \<in> set rows'" by auto
  with create_args_Inr [OF built] retrieved show ?thesis
    unfolding same by simp
qed

theorem stored_report_reads_back_witness:
  "create_args (sample_env (with_scores 80 60 90 70 50)) sample_user
      (sample_report ''https://example.com'' (with_scores 80 60 90 70 50))
     = Inr (sample_row ''https://example.com'' 80 60 90 70 50)
   \<and> db_create (sample_env (with_scores 80 60 90 70 50)) []
        (sample_row ''https://example.com'' 80 60 90 70 50)
     = Inr [sample_row ''https://example.com'' 80 60 90 70 50]
   \<and> db_list (sample_env (with_scores 80 60 90 70 50))
        [sample_row ''https://example.com'' 80 60 90 70 50] ''u1'' 10
     = Inr [sample_row ''https://example.com'' 80 60 90 70 50]
   \<and> JSON_parse (sample_env (with_scores 80 60 90 70 50))
        (analysisData (sample_row ''https://example.com'' 80 60 90 70 50))
     = Some (as_parsed (sample_report ''https://example.com'' (with_scores 80 60 90 70 50)))
   \<and> rid (parse_item (sample_env (with_scores 80 60 90 70 50))
        (sample_row ''https://example.com'' 80 60 90 70 50))
     = ''analysis_1700000000000''
   \<and> scores_of (parse_item (sample_env (with_scores 80 60 90 70 50))
        (sample_row ''https://example.com'' 80 60 90 70 50))
     = Inr (Some 80, Some 60, Some 90, Some 70, Some 50)"
proof -
  let ?e = "sample_env (with_scores 80 60 90 70 50)"
  let ?r = "sample_report ''https://example.com'' (with_scores 80 60 90 70 50)"
  let ?rw = "sample_row ''https://example.com'' 80 60 90 70 50"
  have h0: "create_args ?e sample_user ?r = Inr ?rw" by (rule sample_create_args)
  have h1: "db_create ?e [] ?rw = Inr [?rw]" by (simp add: db_create_def sample_env_simps)
  have "userId ?rw = ''u1''" by (simp add: sample_row_simps)
  with sample_db_list_one [of "with_scores 80 60 90 70 50" ?rw]
  have h2: "db_list ?e [?rw] ''u1'' 10 = Inr [?rw]" by simp
  have h3: "?rw \<in> set [?rw]" by simp
  have h4: "JSON_parse ?e (analysisData ?rw) = Some (as_parsed ?r)"
    by (simp add: sample_row_simps sample_env_simps)
  have "rid ?r = ''analysis_1700000000000''" by (simp add: sample_report_def)
  with stored_report_reads_back [OF h0 h1 h2 h3 refl h4] h0 h1 h2 h4 show ?thesis
    by (simp add: sample_row_simps scores_of_with_scores)
qed

section \<open>Reading a record whose blob is no report\<close>






section \<open>Overall score: the rounded mean\<close>

lemma is_score_int:
  assumes "is_score x"
  obtains k where "x = rat_of_int k" and "0 \<le> k" and "k \<le> 100"
proof
  have "rat_of_int \<lfloor>x\<rfloor> = x" using assms unfolding is_score_def by (rule conjunct1)
  then show "x = rat_of_int \<lfloor>x\<rfloor>" by (rule sym)
  have "0 \<le> x" "x \<le> 100" using assms by (simp_all add: is_score_def)
  then show "0 \<le> \<lfloor>x\<rfloor>" and "\<lfloor>x\<rfloor> \<le> 100" by (simp_all add: floor_le_iff)
qed

lemma add_small_ints:
  assumes "0 \<le> j" "0 \<le> k" "j + k \<le> 500"
  shows "add_double (Finite (rat_of_int j)) (Finite (rat_of_int k)) = Finite (rat_of_int (j + k))"
proof -
  have "rat_of_int (j + k) \<le> 500" using assms(3) by (simp only: of_int_le_numeral_iff)
  then have "rat_of_int (j + k) < 2 ^ 53" by simp
  with assms have "round_double (rat_of_int (j + k)) = Finite (rat_of_int (j + k))"
    by (intro round_double_of_int) simp_all
  then show ?thesis by simp
qed

lemma to_double_small_int:
  assumes "0 \<le> k" "k \<le> 100"
  shows "to_double (Some (rat_of_int k)) = Finite (rat_of_int k)"
proof -
  have "rat_of_int k \<le> 100" using assms(2) by (simp only: of_int_le_numeral_iff)
  then have "rat_of_int k < 2 ^ 53" by simp
  with assms(1) have "round_double (rat_of_int k) = Finite (rat_of_int k)"
    by (intro round_double_of_int)
  then show ?thesis by (simp add: to_double_def)
qed

lemma score_sum_small_ints:
  assumes "0 \<le> p" "p \<le> 100" "0 \<le> q" "q \<le> 100" "0 \<le> a" "a \<le> 100"
    "0 \<le> d" "d \<le> 100" "0 \<le> u" "u \<le> 100"
  shows "score_sum (Some (rat_of_int p), Some (rat_of_int q), Some (rat_of_int a),
      Some (rat_of_int d), Some (rat_of_int u)) = Finite (rat_of_int (p + q + a + d + u))"
proof -
  have 1: "add_double (Finite (rat_of_int p)) (Finite (rat_of_int q)) = Finite (rat_of_int (p + q))"
    using assms by (intro add_small_ints) simp_all
  have 2: "add_double (Finite (rat_of_int (p + q))) (Finite (rat_of_int a))
      = Finite (rat_of_int (p + q + a))"
    using assms by (intro add_small_ints) simp_all
  have 3: "add_double (Finite (rat_of_int (p + q + a))) (Finite (rat_of_int d))
      = Finite (rat_of_int (p + q + a + d))"
    using assms by (intro add_small_ints) simp_all
  have 4: "add_double (Finite (rat_of_int (p + q + a + d))) (Finite (rat_of_int u))
      = Finite (rat_of_int (p + q + a + d + u))"
    using assms by (intro add_small_ints) simp_all
  show ?thesis
    unfolding score_sum_def
    by (simp only: prod.case to_double_small_int assms 1 2 3 4)
qed

lemma rounded_fifth: "\<lfloor>rat_of_int k / 5 + 1 / 2\<rfloor> = (2 * k + 5) div 10"
proof -
  have "rat_of_int k / 5 + 1 / 2 = rat_of_int (2 * k + 5) / rat_of_int 10" by simp
  then show ?thesis by (simp only: floor_divide_of_int_eq)
qed

lemma overall_small_ints:
  assumes "scores_of r = Inr (Some (rat_of_int p), Some (rat_of_int q), Some (rat_of_int a),
      Some (rat_of_int d), Some (rat_of_int u))"
    and "0 \<le> p" "p \<le> 100" "0 \<le> q" "q \<le> 100" "0 \<le> a" "a \<le> 100"
    "0 \<le> d" "d \<le> 100" "0 \<le> u" "u \<le> 100"
  shows "overall r = Inr (Finite (rat_of_int \<lfloor>rat_of_int (p + q + a + d + u) / 5 + 1 / 2\<rfloor>))"
proof -
  have total: "score_sum (Some (rat_of_int p), Some (rat_of_int q), Some (rat_of_int a),
      Some (rat_of_int d), Some (rat_of_int u)) = Finite (rat_of_int (p + q + a + d + u))"
    using assms(2-) by (rule score_sum_small_ints)
  have "0 \<le> p + q + a + d + u" "p + q + a + d + u \<le> 500" using assms(2-) by simp_all
  then have fifth: "Math_round (divide_by_5 (Finite (rat_of_int (p + q + a + d + u))))
      = Finite (rat_of_int ((2 * (p + q + a + d + u) + 5) div 10))"
    by (rule fifth_rounds)
  show ?thesis
    by (simp only: overall_def assms(1) sum.case total fifth rounded_fifth)
qed

lemma round_half_up_bounds:
  "rat_of_int \<lfloor>x + 1 / 2\<rfloor> - 1 / 2 \<le> x" "x < rat_of_int \<lfloor>x + 1 / 2\<rfloor> + 1 / 2"
proof -
  have "rat_of_int \<lfloor>x + 1 / 2\<rfloor> \<le> x + 1 / 2" by (rule of_int_floor_le)
  then show "rat_of_int \<lfloor>x + 1 / 2\<rfloor> - 1 / 2 \<le> x" by linarith
  have "x + 1 / 2 < rat_of_int \<lfloor>x + 1 / 2\<rfloor> + 1" by linarith
  then show "x < rat_of_int \<lfloor>x + 1 / 2\<rfloor> + 1 / 2" by linarith
qed

lemma overall_of_scores:
  assumes "has_scores r p q a d u"
    and "is_score p" "is_score q" "is_score a" "is_score d" "is_score u"
  shows "overall r = Inr (Finite (rat_of_int \<lfloor>(p + q + a + d + u) / 5 + 1 / 2\<rfloor>))"
proof -
  from assms(2) obtain p' where p: "p = rat_of_int p'" "0 \<le> p'" "p' \<le> 100" by (rule is_score_int)
  from assms(3) obtain q' where q: "q = rat_of_int q'" "0 \<le> q'" "q' \<le> 100" by (rule is_score_int)
  from assms(4) obtain a' where a: "a = rat_of_int a'" "0 \<le> a'" "a' \<le> 100" by (rule is_score_int)
  from assms(5) obtain d' where d: "d = rat_of_int d'" "0 \<le> d'" "d' \<le> 100" by (rule is_score_int)
  from assms(6) obtain u' where u: "u = rat_of_int u'" "0 \<le> u'" "u' \<le> 100" by (rule is_score_int)
  have "scores_of r = Inr (Some (rat_of_int p'), Some (rat_of_int q'), Some (rat_of_int a'),
      Some (rat_of_int d'), Some (rat_of_int u'))"
    using assms(1) by (simp add: has_scores_def p q a d u)
  from overall_small_ints [OF this p(2,3) q(2,3) a(2,3) d(2,3) u(2,3)]
  show ?thesis by (simp add: p q a d u)
qed

lemma exportReport_Some:
  assumes "exportReport e s = Inr (Some (doc, name), s')"
  shows "result s = Some (report_analysis doc)
    \<and> overall (report_analysis doc) = Inr (scores_overall (report_scores doc))"
  using assms
  by (auto simp: exportReport_def overall_def split: option.splits sum.splits prod.splits)

lemma sample_overall:
  "overall (sample_report v (with_scores 80 60 90 70 50)) = Inr (Finite 70)"
proof -
  have "has_scores (sample_report v (with_scores 80 60 90 70 50)) 80 60 90 70 50"
    by (simp add: has_scores_def scores_of_with_scores)
  then have "overall (sample_report v (with_scores 80 60 90 70 50))
      = Inr (Finite (rat_of_int \<lfloor>(80 + 60 + 90 + 70 + 50) / 5 + 1 / 2 :: rat\<rfloor>))"
    by (rule overall_of_scores) (simp_all add: is_score_def)
  then show ?thesis by (simp add: floor_eq_iff)
qed

text \<open>
  The claim C4 (for every report the overall score is the mean of the five scores,
  rounded half up) fails: the sum and the division are those of doubles. For the
  integer scores 9007199254740994, 1, 1, 1, 1, which a run takes from the analyzer as
  they are, the sum is rounded to 9007199254740996 and the overall score is
  1801439850948199, while the mean 1801439850948199.6 rounds to 1801439850948200. For
  the scores 4, 3.4999999999999996 (the double \<open>7881299347898367 / 2\<^sup>5\<^sup>1\<close>), 0, 0, 0, all
  between 0 and 100, the sum is rounded to 7.5 and the overall score is 2, while the
  mean, below 1.5, rounds to 1.
\<close>

theorem overall_is_not_the_rounded_mean:
  "result (analyzeWebsite (sample_env huge_scores) (typed ''example.com''))
     = Some (sample_report ''https://example.com'' huge_scores)
   \<and> has_scores (sample_report ''https://example.com'' huge_scores) 9007199254740994 1 1 1 1
   \<and> overall (sample_report ''https://example.com'' huge_scores) = Inr (Finite 1801439850948199)
   \<and> \<lfloor>(9007199254740994 + 1 + 1 + 1 + 1) / 5 + 1 / 2 :: rat\<rfloor> = 1801439850948200
   \<and> has_scores (with_scores 4 (7881299347898367 / 2251799813685248) 0 0 0)
        4 (7881299347898367 / 2251799813685248) 0 0 0
   \<and> overall (with_scores 4 (7881299347898367 / 2251799813685248) 0 0 0) = Inr (Finite 2)
   \<and> \<lfloor>(4 + 7881299347898367 / 2251799813685248 + 0 + 0 + 0) / 5 + 1 / 2 :: rat\<rfloor> = 1"
  unfolding huge_scores_def
  by (simp add: sample_first_run has_scores_def scores_of_with_scores overall_def big_overall
      near_overall floor_eq_iff)

text \<open>
  C4, as amended. For every report whose five scores are integers from 0 to 100, the
  overall score is the integer nearest to the mean of the five scores, the upper one
  when the mean lies halfway between two integers: the mean is at least the overall
  score minus one half and less than the overall score plus one half. Scores
  (80, 60, 90, 70, 50) give 70 and scores (0, 0, 0, 0, 0) give 0. This is the \<open>overall\<close>
  field of an exported document and the star of each history item.
\<close>

theorem overall_rounds_mean_half_up:
  "(has_scores r p q a d u \<and> is_score p \<and> is_score q \<and> is_score a \<and> is_score d \<and> is_score u
      \<longrightarrow> overall r = Inr (Finite (rat_of_int \<lfloor>(p + q + a + d + u) / 5 + 1 / 2\<rfloor>))
        \<and> rat_of_int \<lfloor>(p + q + a + d + u) / 5 + 1 / 2\<rfloor> - 1 / 2 \<le> (p + q + a + d + u) / 5
        \<and> (p + q + a + d + u) / 5 < rat_of_int \<lfloor>(p + q + a + d + u) / 5 + 1 / 2\<rfloor> + 1 / 2)
   \<and> (has_scores r 80 60 90 70 50 \<longrightarrow> overall r = Inr (Finite 70))
   \<and> (has_scores r 0 0 0 0 0 \<longrightarrow> overall r = Inr (Finite 0))
   \<and> (exportReport e s = Inr (Some (doc, name), s') \<longrightarrow>
        result s = Some (report_analysis doc)
        \<and> overall (report_analysis doc) = Inr (scores_overall (report_scores doc)))
   \<and> history_stars s = map overall (history s)"
proof (intro conjI impI)
  assume h: "has_scores r p q a d u \<and> is_score p \<and> is_score q \<and> is_score a \<and> is_score d
    \<and> is_score u"
  then show "overall r = Inr (Finite (rat_of_int \<lfloor>(p + q + a + d + u) / 5 + 1 / 2\<rfloor>))"
    by (intro overall_of_scores) simp_all
  show "rat_of_int \<lfloor>(p + q + a + d + u) / 5 + 1 / 2\<rfloor> - 1 / 2 \<le> (p + q + a + d + u) / 5"
    by (rule round_half_up_bounds)
  show "(p + q + a + d + u) / 5 < rat_of_int \<lfloor>(p + q + a + d + u) / 5 + 1 / 2\<rfloor> + 1 / 2"
    by (rule round_half_up_bounds)
next
  assume "has_scores r 80 60 90 70 50"
  then have "overall r = Inr (Finite (rat_of_int \<lfloor>(80 + 60 + 90 + 70 + 50) / 5 + 1 / 2 :: rat\<rfloor>))"
    by (rule overall_of_scores) (simp_all add: is_score_def)
  then show "overall r = Inr (Finite 70)" by (simp add: floor_eq_iff)
next
  assume "has_scores r 0 0 0 0 0"
  then have "overall r = Inr (Finite (rat_of_int \<lfloor>(0 + 0 + 0 + 0 + 0) / 5 + 1 / 2 :: rat\<rfloor>))"
    by (rule overall_of_scores) (simp_all add: is_score_def)
  then show "overall r = Inr (Finite 0)" by (simp add: floor_eq_iff)
next
  assume exported: "exportReport e s = Inr (Some (doc, name), s')"
  from exportReport_Some [OF exported]
  show "result s = Some (report_analysis doc)"
    and "overall (report_analysis doc) = Inr (scores_overall (report_scores doc))"
    by simp_all
next
  show "history_stars s = map overall (history s)"
    by (simp add: history_stars_def)
qed

theorem overall_rounds_mean_half_up_witness:
  "has_scores (with_scores 80 60 90 70 50) 80 60 90 70 50
   \<and> is_score 80 \<and> is_score 60 \<and> is_score 90 \<and> is_score 70 \<and> is_score 50
   \<and> overall (with_scores 80 60 90 70 50) = Inr (Finite 70)
   \<and> has_scores (with_scores 0 0 0 0 0) 0 0 0 0 0
   \<and> overall (with_scores 0 0 0 0 0) = Inr (Finite 0)
   \<and> has_scores (with_scores 81 60 90 70 52) 81 60 90 70 52
   \<and> (81 + 60 + 90 + 70 + 52) / 5 = (353 / 5 :: rat)
   \<and> overall (with_scores 81 60 90 70 52) = Inr (Finite 71)
   \<and> (\<exists>doc s'. exportReport (sample_env (with_scores 80 60 90 70 50))
          (analyzeWebsite (sample_env (with_scores 80 60 90 70 50)) (typed ''example.com''))
        = Inr (Some (doc, ''website-analysis-2023-11-14.json''), s')
      \<and> scores_overall (report_scores doc) = Finite 70)"
proof -
  let ?a = "with_scores 80 60 90 70 50"
  let ?s = "analyzeWebsite (sample_env ?a) (typed ''example.com'')"
  let ?r = "sample_report ''https://example.com'' ?a"
  have "\<exists>doc s'. exportReport (sample_env ?a) ?s
          = Inr (Some (doc, ''website-analysis-2023-11-14.json''), s') \<and> report_analysis doc = ?r"
    by (simp add: exportReport_def sample_first_run sample_env_simps scores_of_with_scores)
  then obtain doc s' where
    exported: "exportReport (sample_env ?a) ?s
      = Inr (Some (doc, ''website-analysis-2023-11-14.json''), s')"
    and doc: "report_analysis doc = ?r"
    by blast
  have scores: "is_score 80" "is_score 60" "is_score 90" "is_score 70" "is_score 50"
    "is_score 81" "is_score 52" "is_score 0"
    by (simp_all add: is_score_def)
  have has: "has_scores ?a 80 60 90 70 50" "has_scores (with_scores 0 0 0 0 0) 0 0 0 0 0"
    "has_scores (with_scores 81 60 90 70 52) 81 60 90 70 52"
    by (simp_all add: has_scores_def scores_of_with_scores)
  have "scores_overall (report_scores doc) = Finite 70"
    using overall_rounds_mean_half_up
        [of ?a 80 60 90 70 50 "sample_env ?a" ?s doc "''website-analysis-2023-11-14.json''" s']
      exported doc
    by (simp add: sample_overall)
  with exported have last: "\<exists>doc s'. exportReport (sample_env ?a) ?s
        = Inr (Some (doc, ''website-analysis-2023-11-14.json''), s')
      \<and> scores_overall (report_scores doc) = Finite 70"
    by blast
  have "overall (with_scores 81 60 90 70 52) = Inr (Finite 71)"
    using overall_rounds_mean_half_up
        [of "with_scores 81 60 90 70 52" 81 60 90 70 52 "sample_env ?a" ?s doc
          "''website-analysis-2023-11-14.json''" s']
      has scores
    by (simp add: floor_eq_iff)
  moreover have "overall ?a = Inr (Finite 70)"
    using overall_rounds_mean_half_up
        [of ?a 80 60 90 70 50 "sample_env ?a" ?s doc "''website-analysis-2023-11-14.json''" s'] has
    by simp
  moreover have "overall (with_scores 0 0 0 0 0) = Inr (Finite 0)"
    using overall_rounds_mean_half_up
        [of "with_scores 0 0 0 0 0" 0 0 0 0 0 "sample_env ?a" ?s doc
          "''website-analysis-2023-11-14.json''" s'] has
    by simp
  ultimately show ?thesis using has scores last by simp
qed

section \<open>The best category of the history\<close>

text \<open>
  C5 asks for the category with the highest mean score over the window. The figure
  shown under "Best Category" (line 919) is the constant \<open>Design\<close> for every non-empty
  history: for a window of one report with performance 90 and design 10 it names
  \<open>Design\<close>, whose mean is the lowest of the five.
\<close>

theorem best_category_is_a_placeholder:
  "fast_but_plain \<noteq> []
   \<and> best_category fast_but_plain = category_label Design
   \<and> category_mean Design fast_but_plain = Some 10
   \<and> category_mean Performance fast_but_plain = Some 90
   \<and> category_mean SEO fast_but_plain = Some 60
   \<and> category_mean Accessibility fast_but_plain = Some 70
   \<and> category_mean UX fast_but_plain = Some 50
   \<and> (10 :: number) < 90"
  by (simp add: fast_but_plain_def best_category_def category_mean_def sample_report_def
      with_scores_def)

section \<open>A failed run\<close>

text \<open>
  C6. When the URL is accepted and the fetch, the capture, the analysis or the write to
  the store fails, the run leaves the store as it was (so a later list shows what it
  showed before), leaves no result and the history as it was, resets the progress
  display, keeps the typed URL so that a run can be started again, and shows exactly one
  toast, the generic failure notice.
\<close>

theorem failed_run_leaves_no_report:
  assumes nonblank: "trim (url s) \<noteq> []"
    and valid: "validUrl e (url s) = Inr v"
    and fails: "fetch_fails e v \<or> capture_fails e v \<or> analyze_fails e v \<or> persist_fails e v s"
  shows "db (analyzeWebsite e s) = db s
    \<and> db_list e' (db (analyzeWebsite e s)) uid n = db_list e' (db s) uid n
    \<and> result (analyzeWebsite e s) = None
    \<and> history (analyzeWebsite e s) = history s
    \<and> progress_reset (analyzeWebsite e s)
    \<and> url (analyzeWebsite e s) = url s
    \<and> user (analyzeWebsite e s) = user s
    \<and> toasts (analyzeWebsite e s) = toasts s @ [ToastError ''Analysis failed. Please try again.'']"
proof -
  let ?s0 = "s\<lparr>analyzing := True, progress := 0, result := None\<rparr>"
  have "persist_fails e v ?s0 = persist_fails e v s"
    by (simp add: persist_fails_def split: sum.splits option.splits)
  with fails have "isl (try_block e v ?s0)" by (simp add: try_block_isl)
  then obtain err s' where tb: "try_block e v ?s0 = Inl (err, s')"
    by (cases "try_block e v ?s0") auto
  have run: "analyzeWebsite e s = finally_block (catch_block s')"
    using analyzeWebsite_started [OF nonblank valid] tb by simp
  from try_block_Inl [OF tb]
  have keep: "db s' = db s" "result s' = None" "toasts s' = toasts s" "history s' = history s"
    "url s' = url s" "user s' = user s" by simp_all
  show ?thesis
    by (simp add: run keep finally_block_def catch_block_def show_toast_def console_error_def
        progress_reset_def)
qed

theorem failed_run_leaves_no_report_witness:
  "trim (url (typed ''example.com'')) \<noteq> []
   \<and> validUrl (capture_down (with_scores 80 60 90 70 50)) (url (typed ''example.com''))
       = Inr ''https://example.com''
   \<and> capture_fails (capture_down (with_scores 80 60 90 70 50)) ''https://example.com''
   \<and> db (analyzeWebsite (capture_down (with_scores 80 60 90 70 50)) (typed ''example.com'')) = []
   \<and> db_list (sample_env (with_scores 80 60 90 70 50))
        (db (analyzeWebsite (capture_down (with_scores 80 60 90 70 50)) (typed ''example.com'')))
        ''u1'' 10 = Inr []
   \<and> result (analyzeWebsite (capture_down (with_scores 80 60 90 70 50)) (typed ''example.com'')) = None
   \<and> progress_reset (analyzeWebsite (capture_down (with_scores 80 60 90 70 50)) (typed ''example.com''))
   \<and> toasts (analyzeWebsite (capture_down (with_scores 80 60 90 70 50)) (typed ''example.com''))
       = [ToastError ''Analysis failed. Please try again.'']"
proof -
  let ?e = "capture_down (with_scores 80 60 90 70 50)"
  have h1: "trim (url (typed ''example.com'')) \<noteq> []"
    by (simp add: typed_simps trim_example)
  have h2: "validUrl ?e (url (typed ''example.com'')) = Inr ''https://example.com''"
    by (simp add: typed_simps capture_down_validUrl)
  have h3: "capture_fails ?e ''https://example.com''"
    by (simp add: capture_fails_def capture_down_def)
  from h3 have h3': "fetch_fails ?e ''https://example.com'' \<or> capture_fails ?e ''https://example.com''
      \<or> analyze_fails ?e ''https://example.com''
      \<or> persist_fails ?e ''https://example.com'' (typed ''example.com'')"
    by simp
  show ?thesis
    using h1 h2 h3
      failed_run_leaves_no_report [OF h1 h2 h3', of "sample_env (with_scores 80 60 90 70 50)" "''u1''" 10]
    by (simp add: typed_simps db_list_def sample_env_def)
qed

section \<open>URL validation\<close>

text \<open>
  The claim C7 (the input is trimmed first, and every trimmed input without a scheme
  gets \<open>https://\<close> and parses) fails: trimming is used for the emptiness test only. For
  the input \<open>example.com\<close> with a leading space the string built and parsed is
  \<open>https://\<close>, a space, \<open>example.com\<close>, not \<open>https://example.com\<close>; a parser that refuses
  white space in a host rejects it, while it accepts the trimmed input.
\<close>

theorem untrimmed_input_is_not_trimmed:
  "trim '' example.com'' = ''example.com''
   \<and> \<not> startsWith (trim '' example.com'') ''http://''
   \<and> \<not> startsWith (trim '' example.com'') ''https://''
   \<and> with_scheme '' example.com'' = ''https:// example.com''
   \<and> with_scheme '' example.com'' \<noteq> ''https://'' @ trim '' example.com''
   \<and> validUrl (sample_env out_of_range) '' example.com'' = Inl InvalidUrl
   \<and> validUrl (sample_env out_of_range) (trim '' example.com'') = Inr ''https://example.com''"
  by (simp add: trim_def isWhiteSpace_def startsWith_def with_scheme_def validUrl_def
      sample_env_def)

text \<open>
  C7, as amended. An input that is empty after trimming is refused with the invalid-URL
  toast and nothing else changes: the run is not started. Otherwise the input as typed
  (not trimmed) is taken: without a leading \<open>http://\<close> or \<open>https://\<close> it gets \<open>https://\<close>
  in front. The resulting string is accepted exactly when it parses as an absolute URL;
  when it does not, the input is refused in the same way and the run is not started.
  Every accepted URL parses and starts with one of the two schemes.
\<close>

theorem url_validation:
  "(trim (url s) = [] \<longrightarrow>
      analyzeWebsite e s = show_toast (ToastError ''Please enter a valid URL'') s)
   \<and> (validUrl e (url s) = Inl InvalidUrl \<longrightarrow>
      analyzeWebsite e s = show_toast (ToastError ''Please enter a valid URL'') s)
   \<and> db (show_toast (ToastError ''Please enter a valid URL'') s) = db s
   \<and> analyzing (show_toast (ToastError ''Please enter a valid URL'') s) = analyzing s
   \<and> (\<not> startsWith u ''http://'' \<and> \<not> startsWith u ''https://'' \<longrightarrow>
        validUrl e u = (if URL_parses e (''https://'' @ u) then Inr (''https://'' @ u)
                        else Inl InvalidUrl))
   \<and> (startsWith u ''http://'' \<or> startsWith u ''https://'' \<longrightarrow>
        validUrl e u = (if URL_parses e u then Inr u else Inl InvalidUrl))
   \<and> (validUrl e u = Inr v \<longrightarrow>
        URL_parses e v \<and> (startsWith v ''http://'' \<or> startsWith v ''https://''))"
proof (intro conjI impI)
  assume "trim (url s) = []"
  then show "analyzeWebsite e s = show_toast (ToastError ''Please enter a valid URL'') s"
    by (simp add: analyzeWebsite_rejected)
next
  assume "validUrl e (url s) = Inl InvalidUrl"
  then show "analyzeWebsite e s = show_toast (ToastError ''Please enter a valid URL'') s"
    by (simp add: analyzeWebsite_rejected)
next
  assume "\<not> startsWith u ''http://'' \<and> \<not> startsWith u ''https://''"
  then show "validUrl e u = (if URL_parses e (''https://'' @ u) then Inr (''https://'' @ u)
                        else Inl InvalidUrl)"
    by (simp add: validUrl_def with_scheme_def)
next
  assume "startsWith u ''http://'' \<or> startsWith u ''https://''"
  then show "validUrl e u = (if URL_parses e u then Inr u else Inl InvalidUrl)"
    by (auto simp: validUrl_def with_scheme_def)
next
  assume ok: "validUrl e u = Inr v"
  then show "URL_parses e v" by (auto simp: validUrl_def split: if_splits)
  from ok have v: "v = with_scheme u" by (auto simp: validUrl_def split: if_splits)
  show "startsWith v ''http://'' \<or> startsWith v ''https://''"
    unfolding v by (auto simp: with_scheme_def startsWith_def)
qed (simp_all add: show_toast_def)

theorem url_validation_witness:
  "trim (url (typed ''   '')) = []
   \<and> analyzeWebsite (sample_env out_of_range) (typed ''   '')
       = show_toast (ToastError ''Please enter a valid URL'') (typed ''   '')
   \<and> \<not> startsWith ''example.com'' ''http://'' \<and> \<not> startsWith ''example.com'' ''https://''
   \<and> validUrl (sample_env out_of_range) ''example.com'' = Inr ''https://example.com''
   \<and> URL_parses (sample_env out_of_range) ''https://example.com''
   \<and> startsWith ''https://example.org'' ''https://''
   \<and> validUrl (sample_env out_of_range) ''https://example.org'' = Inr ''https://example.org''
   \<and> validUrl (sample_env out_of_range) (url (typed ''a b'')) = Inl InvalidUrl
   \<and> analyzeWebsite (sample_env out_of_range) (typed ''a b'')
       = show_toast (ToastError ''Please enter a valid URL'') (typed ''a b'')"
proof -
  let ?e = "sample_env out_of_range"
  have blank: "trim (url (typed ''   '')) = []"
    by (simp add: typed_simps trim_def isWhiteSpace_def)
  have bad: "validUrl ?e (url (typed ''a b'')) = Inl InvalidUrl"
    by (simp add: typed_simps validUrl_def with_scheme_def startsWith_def sample_env_def
        isWhiteSpace_def)
  have bare: "\<not> startsWith ''example.com'' ''http://'' \<and> \<not> startsWith ''example.com'' ''https://''"
    by (simp add: startsWith_def)
  have full: "startsWith ''https://example.org'' ''https://''" by (simp add: startsWith_def)
  have parses: "URL_parses ?e ''https://example.com''" "URL_parses ?e ''https://example.org''"
    by (simp_all add: sample_env_def isWhiteSpace_def)
  show ?thesis
    using url_validation [of "typed ''   ''" ?e "''example.com''" "''https://example.com''"]
      url_validation [of "typed ''a b''" ?e "''https://example.org''" "''https://example.org''"]
      blank bad bare full parses
    by simp
qed

section \<open>Report identifiers\<close>

lemma trim_example_org: "trim ''example.org'' = ''example.org''"
  by (simp add: trim_def isWhiteSpace_def)

lemma sample_validUrl_org:
  "validUrl (sample_env a) ''example.org'' = Inr ''https://example.org''"
  by (simp add: validUrl_def with_scheme_def startsWith_def sample_env_def isWhiteSpace_def)

text \<open>
  The claim C9 (any two reports persisted for one user have different ids) fails: the
  id is the clock reading and nothing else. Two sessions of the same user that read the
  same millisecond, the second one seeing the record of the first in the store, persist
  two records with the same id for two different URLs.
\<close>

theorem same_clock_reading_same_id:
  "map row_id (db (analyzeWebsite (sample_env out_of_range)
      ((typed ''example.org'')
         \<lparr>db := db (analyzeWebsite (sample_env out_of_range) (typed ''example.com''))\<rparr>)))
     = [''analysis_1700000000000'', ''analysis_1700000000000'']
   \<and> map userId (db (analyzeWebsite (sample_env out_of_range)
      ((typed ''example.org'')
         \<lparr>db := db (analyzeWebsite (sample_env out_of_range) (typed ''example.com''))\<rparr>)))
     = [''u1'', ''u1'']
   \<and> map row_url (db (analyzeWebsite (sample_env out_of_range)
      ((typed ''example.org'')
         \<lparr>db := db (analyzeWebsite (sample_env out_of_range) (typed ''example.com''))\<rparr>)))
     = [''https://example.com'', ''https://example.org'']"
proof -
  let ?e = "sample_env (with_scores 150 60 90 70 50)"
  let ?s1 = "analyzeWebsite ?e (typed ''example.com'')"
  let ?s = "(typed ''example.org'')\<lparr>db := db ?s1\<rparr>"
  have u: "user ?s = Some sample_user" by (simp add: typed_simps)
  have t: "trim (url ?s) \<noteq> []" by (simp add: typed_simps trim_example_org)
  have v: "validUrl ?e (url ?s) = Inr ''https://example.org''"
    by (simp add: typed_simps sample_validUrl_org)
  from sample_run(1) [OF u t v] show ?thesis
    unfolding out_of_range_def by (simp add: sample_first_run sample_row_simps)
qed

text \<open>
  C9, as amended. The id of a report is generated when the report is assembled. Where
  the analyzer's answer carries no \<open>id\<close> of its own, it is \<open>analysis_\<close> followed by the
  decimal clock reading in milliseconds, and it is the id of the record a run persists;
  two such reports have different ids exactly when the clock readings taken for their
  ids differ. Where the answer carries an \<open>id\<close>, that one is the id of the report.
\<close>

theorem report_id_is_the_clock_reading:
  "(p_id a = None \<longrightarrow> rid (analysisResult e v a) = analysis_id (now_id e))
   \<and> (p_id a1 = None \<and> p_id a2 = None \<longrightarrow>
        (rid (analysisResult e1 v1 a1) = rid (analysisResult e2 v2 a2) \<longleftrightarrow> now_id e1 = now_id e2))
   \<and> (p_id a3 = Some i \<longrightarrow> rid (analysisResult e3 v3 a3) = i)
   \<and> (db (analyzeWebsite e s) = db s
        \<or> (\<exists>w pg b. validUrl e (url s) = Inr w \<and> scrape e w = Inr pg
              \<and> generateObject e (analysisPrompt w pg) = Inr b
              \<and> db (analyzeWebsite e s) = db s @ [last (db (analyzeWebsite e s))]
              \<and> (p_id b = None \<longrightarrow>
                    row_id (last (db (analyzeWebsite e s))) = analysis_id (now_id e))))"
proof (intro conjI impI)
  assume "p_id a = None"
  then show "rid (analysisResult e v a) = analysis_id (now_id e)"
    by (simp add: analysisResult_def spread_def)
next
  assume "p_id a1 = None \<and> p_id a2 = None"
  then show "rid (analysisResult e1 v1 a1) = rid (analysisResult e2 v2 a2) \<longleftrightarrow> now_id e1 = now_id e2"
    by (simp add: analysisResult_def spread_def analysis_id_inj)
next
  assume "p_id a3 = Some i"
  then show "rid (analysisResult e3 v3 a3) = i"
    by (simp add: analysisResult_def spread_def)
next
  show "db (analyzeWebsite e s) = db s
        \<or> (\<exists>w pg b. validUrl e (url s) = Inr w \<and> scrape e w = Inr pg
              \<and> generateObject e (analysisPrompt w pg) = Inr b
              \<and> db (analyzeWebsite e s) = db s @ [last (db (analyzeWebsite e s))]
              \<and> (p_id b = None \<longrightarrow>
                    row_id (last (db (analyzeWebsite e s))) = analysis_id (now_id e)))"
  proof (cases "db (analyzeWebsite e s) = db s")
    case True
    then show ?thesis ..
  next
    case False
    with analyzeWebsite_db [of e s] obtain w pg b u args where run:
      "validUrl e (url s) = Inr w" "scrape e w = Inr pg"
      "generateObject e (analysisPrompt w pg) = Inr b" "user s = Some u"
      "create_args e u (analysisResult e w b) = Inr args"
      "db (analyzeWebsite e s) = db s @ [args]"
      by auto
    have "row_id args = rid (analysisResult e w b)"
      using create_args_Inr [OF run(5)] by simp
    then have "p_id b = None \<longrightarrow> row_id args = analysis_id (now_id e)"
      by (simp add: analysisResult_def spread_def)
    with run show ?thesis
      by (intro disjI2 exI [of _ w] exI [of _ pg] exI [of _ b]) simp
  qed
qed

theorem report_id_is_the_clock_reading_witness:
  "p_id (only_sections out_of_range) = None
   \<and> rid (analysisResult (sample_env out_of_range) ''https://example.com''
        (only_sections out_of_range)) = ''analysis_1700000000000''
   \<and> map row_id (db (analyzeWebsite (sample_env out_of_range) (typed ''example.com'')))
       = [''analysis_1700000000000'']
   \<and> (rid (analysisResult (sample_env out_of_range) ''https://example.com''
          (only_sections out_of_range))
        = rid (analysisResult ((sample_env out_of_range)\<lparr>now_id := 1700000000001\<rparr>)
            ''https://example.org'' (only_sections out_of_range))
      \<longleftrightarrow> (1700000000000 :: int) = 1700000000001)
   \<and> p_id (as_parsed (sample_report ''https://example.net'' out_of_range))
       = Some ''analysis_1700000000000''
   \<and> rid (analysisResult ((sample_env out_of_range)\<lparr>now_id := 1700000000001\<rparr>)
        ''https://example.org'' (as_parsed (sample_report ''https://example.net'' out_of_range)))
       = ''analysis_1700000000000''"
proof -
  let ?e = "sample_env out_of_range"
  let ?a = "only_sections out_of_range"
  let ?b = "as_parsed (sample_report ''https://example.net'' out_of_range)"
  have given: "p_id ?b = Some ''analysis_1700000000000''"
    by (simp add: as_parsed_def sample_report_def)
  have none: "p_id ?a = None" by (simp add: only_sections_def)
  have id: "analysis_id (now_id ?e) = ''analysis_1700000000000''"
    by (simp add: sample_env_simps analysis_id_sample)
  have rows: "map row_id (db (analyzeWebsite ?e (typed ''example.com'')))
      = [''analysis_1700000000000'']"
    unfolding out_of_range_def by (simp add: sample_first_run sample_row_simps)
  let ?e2 = "?e\<lparr>now_id := 1700000000001\<rparr>"
  note inst = report_id_is_the_clock_reading
      [of ?a ?e "''https://example.com''" ?a ?a ?e "''https://example.com''" ?e2
        "''https://example.org''" ?b "''analysis_1700000000000''" ?e2 "''https://example.org''"
        "typed ''example.com''"]
  from inst none have first: "rid (analysisResult ?e ''https://example.com'' ?a)
      = analysis_id (now_id ?e)"
    by blast
  from inst none have both: "rid (analysisResult ?e ''https://example.com'' ?a)
        = rid (analysisResult ?e2 ''https://example.org'' ?a)
      \<longleftrightarrow> now_id ?e = now_id ?e2"
    by blast
  have clocks: "now_id ?e = 1700000000000" "now_id ?e2 = 1700000000001"
    by (simp_all add: sample_env_simps)
  have second: "rid (analysisResult ?e ''https://example.com'' ?a)
        = rid (analysisResult ?e2 ''https://example.org'' ?a)
      \<longleftrightarrow> (1700000000000 :: int) = 1700000000001"
    unfolding both clocks by (rule refl)
  have "rid (analysisResult ?e ''https://example.com'' ?a) = ''analysis_1700000000000''"
    unfolding first id by (rule refl)
  moreover from inst given
  have "rid (analysisResult ?e2 ''https://example.org'' ?b) = ''analysis_1700000000000''"
    by blast
  ultimately show ?thesis using none rows second given by (intro conjI)
qed

section \<open>The progress display after a run\<close>

text \<open>
  C10. In every state the application reaches between two operations, an invocation of
  the analysis leaves the progress display reset: not analyzing, progress 0 (not 100),
  step label empty (not the completion label), whether the run succeeded, failed or was
  refused.
\<close>

theorem progress_reset_after_every_run:
  assumes "reachable s"
  shows "progress_reset (analyzeWebsite e s)
    \<and> \<not> analyzing (analyzeWebsite e s)
    \<and> progress (analyzeWebsite e s) = 0
    \<and> progress (analyzeWebsite e s) \<noteq> 100
    \<and> currentStep (analyzeWebsite e s) = []
    \<and> currentStep (analyzeWebsite e s) \<noteq> ''Analysis complete!''"
proof -
  have "reachable (analyzeWebsite e s)" using assms by (rule reachable_analyzeWebsite)
  then have "progress_reset (analyzeWebsite e s)" by (rule reachable_progress_reset)
  then show ?thesis by (simp add: progress_reset_def)
qed

theorem progress_reset_after_every_run_witness:
  "reachable (typed ''example.com'')
   \<and> result (analyzeWebsite (sample_env (with_scores 80 60 90 70 50)) (typed ''example.com''))
       = Some (sample_report ''https://example.com'' (with_scores 80 60 90 70 50))
   \<and> progress (analyzeWebsite (sample_env (with_scores 80 60 90 70 50)) (typed ''example.com'')) = 0
   \<and> currentStep (analyzeWebsite (sample_env (with_scores 80 60 90 70 50)) (typed ''example.com'')) = []
   \<and> \<not> analyzing (analyzeWebsite (sample_env (with_scores 80 60 90 70 50)) (typed ''example.com''))"
  using progress_reset_after_every_run
      [OF reachable_typed, of "sample_env (with_scores 80 60 90 70 50)" "''example.com''"]
    reachable_typed [of "''example.com''"]
  by (simp add: sample_first_run)

end
